theory Spec2Isabelle
  imports Complex_Main
begin

section \<open>Dates (the JavaScript Date and the date-fns operations the code calls)\<close>

text \<open>
  A JavaScript \<open>Date\<close> is an instant: the number of milliseconds since
  1970-01-01T00:00:00Z. The date-fns functions the code calls (\<open>getDay\<close>,
  \<open>getHours\<close>, \<open>getMinutes\<close>, \<open>setHours\<close>, \<open>setMinutes\<close>, \<open>addDays\<close>,
  \<open>subDays\<close>) read and write the fields of the \<^emph>\<open>process\<close> time zone, whereas
  \<open>Date.toISOString\<close> (used by \<open>isHoliday\<close>) prints the UTC fields. The process time
  zone is therefore a parameter \<open>tz\<close> of the model: its offset in minutes east of UTC,
  constant over time (\<open>0\<close> for a process running in UTC, \<open>-300\<close> for one running in
  America/Bogota; a zone with daylight-saving transitions is not modelled). The bounds
  of the ECMAScript time range are not modelled either.
\<close>

type_synonym Date = int

definition localTime :: "int \<Rightarrow> Date \<Rightarrow> int" where
  "localTime tz d = d + tz * 60000"

text \<open>\<open>getDay\<close>: 0 is Sunday, ..., 6 is Saturday; 1970-01-01 was a Thursday.\<close>

definition getDay :: "int \<Rightarrow> Date \<Rightarrow> int" where
  "getDay tz d = (localTime tz d div 86400000 + 4) mod 7"

definition getHours :: "int \<Rightarrow> Date \<Rightarrow> int" where
  "getHours tz d = (localTime tz d mod 86400000) div 3600000"

definition getMinutes :: "int \<Rightarrow> Date \<Rightarrow> int" where
  "getMinutes tz d = (localTime tz d mod 3600000) div 60000"

text \<open>
  \<open>setHours\<close> and \<open>setMinutes\<close> replace one local field and keep the others (seconds and
  milliseconds included).
\<close>

definition setHours :: "int \<Rightarrow> Date \<Rightarrow> int \<Rightarrow> Date" where
  "setHours tz d h = d + (h - getHours tz d) * 3600000"

definition setMinutes :: "int \<Rightarrow> Date \<Rightarrow> int \<Rightarrow> Date" where
  "setMinutes tz d m = d + (m - getMinutes tz d) * 60000"

definition addDays :: "Date \<Rightarrow> int \<Rightarrow> Date" where
  "addDays d n = d + n * 86400000"

definition subDays :: "Date \<Rightarrow> int \<Rightarrow> Date" where
  "subDays d n = addDays d (- n)"

definition addMinutes :: "Date \<Rightarrow> int \<Rightarrow> Date" where
  "addMinutes d n = d + n * 60000"

text \<open>
  A calendar date \<open>YYYY-MM-DD\<close> is represented by its day number: the days from
  1970-01-01 to it. \<open>toISODate d\<close> is the calendar date that
  \<open>d.toISOString().split('T')[0]\<close> prints: the UTC date of the instant.
  \<open>daysFromCivil\<close> gives the day number of a date of the proleptic Gregorian calendar,
  so that concrete dates can be written as year, month and day.
\<close>

type_synonym CalendarDate = int

definition toISODate :: "Date \<Rightarrow> CalendarDate" where
  "toISODate d = d div 86400000"

definition daysFromCivil :: "int \<Rightarrow> int \<Rightarrow> int \<Rightarrow> CalendarDate" where
  "daysFromCivil y m d =
     (let y' = (if m \<le> 2 then y - 1 else y);
          era = y' div 400;
          yoe = y' - era * 400;
          doy = (153 * (if m > 2 then m - 3 else m + 9) + 2) div 5 + d - 1;
          doe = yoe * 365 + yoe div 4 - yoe div 100 + doy
      in era * 146097 + doe - 719468)"

text \<open>The year of a day number (the inverse computation), for \<open>getFullYear\<close>.\<close>

definition yearOfDay :: "CalendarDate \<Rightarrow> int" where
  "yearOfDay n =
     (let z = n + 719468;
          era = z div 146097;
          doe = z - era * 146097;
          yoe = (doe - doe div 1460 + doe div 36524 - doe div 146096) div 365;
          doy = doe - (365 * yoe + yoe div 4 - yoe div 100);
          mp = (5 * doy + 2) div 153;
          m = (if mp < 10 then mp + 3 else mp - 9)
      in yoe + era * 400 + (if m \<le> 2 then 1 else 0))"

definition getFullYear :: "int \<Rightarrow> Date \<Rightarrow> int" where
  "getFullYear tz d = yearOfDay (localTime tz d div 86400000)"

text \<open>The instant of a UTC date and time, for writing concrete inputs.\<close>

definition utcDate :: "int \<Rightarrow> int \<Rightarrow> int \<Rightarrow> int \<Rightarrow> int \<Rightarrow> int \<Rightarrow> Date" where
  "utcDate y m d hh mm ss =
     daysFromCivil y m d * 86400000 + hh * 3600000 + mm * 60000 + ss * 1000"

section \<open>Holidays and business days (holidays.ts, businessTime.ts)\<close>

text \<open>
  \<open>ColombianHolidays\<close> is the list of holiday dates: in the source a list of
  \<open>YYYY-MM-DD\<close> strings, here the list of the calendar dates they denote (an entry
  that is not a date in that form equals nothing \<open>toISOString\<close> prints, and has no
  place in the list). \<open>isHoliday\<close> compares the date \<open>toISOString\<close> prints, which is
  never empty, with the entries: it reads the UTC date of its argument, whatever the
  process time zone, whereas \<open>isBusinessDay\<close> takes the day of the week from the local
  fields.
\<close>

type_synonym ColombianHolidays = "CalendarDate list"

definition isHoliday :: "Date \<Rightarrow> ColombianHolidays \<Rightarrow> bool" where
  "isHoliday date holidays = (toISODate date \<in> set holidays)"

definition isBusinessDay :: "int \<Rightarrow> Date \<Rightarrow> ColombianHolidays \<Rightarrow> bool" where
  "isBusinessDay tz date holidays =
     (let dayOfWeek = getDay tz date
      in if dayOfWeek = 0 \<or> dayOfWeek = 6 then False
         else \<not> isHoliday date holidays)"

record WorkingHours =
  start :: int
  end' :: int
  lunchStart :: int
  lunchEnd :: int

definition WORKING_HOURS :: WorkingHours where
  "WORKING_HOURS = \<lparr>start = 8, end' = 17, lunchStart = 12, lunchEnd = 13\<rparr>"

definition isWithinWorkingHours :: "int \<Rightarrow> Date \<Rightarrow> bool" where
  "isWithinWorkingHours tz date =
     (let hours = getHours tz date;
          minutes = getMinutes tz date;
          totalMinutes = hours * 60 + minutes;
          startMinutes = start WORKING_HOURS * 60;
          lunchStartMinutes = lunchStart WORKING_HOURS * 60;
          lunchEndMinutes = lunchEnd WORKING_HOURS * 60;
          endMinutes = end' WORKING_HOURS * 60
      in (totalMinutes \<ge> startMinutes \<and> totalMinutes < lunchStartMinutes) \<or>
         (totalMinutes \<ge> lunchEndMinutes \<and> totalMinutes < endMinutes))"

subsection \<open>Termination measures of the day-stepping loops\<close>

text \<open>
  The loops of the source step a date one day back (or forward) until it is a business
  day. They end because the holiday list is finite: below its earliest (above its
  latest) entry only week-ends are left to skip.
\<close>

fun lowest :: "int \<Rightarrow> int list \<Rightarrow> int" where
  "lowest b [] = b"
| "lowest b (h # hs) = min h (lowest b hs)"

fun highest :: "int \<Rightarrow> int list \<Rightarrow> int" where
  "highest b [] = b"
| "highest b (h # hs) = max h (highest b hs)"

definition backMeasure :: "int \<Rightarrow> Date \<Rightarrow> ColombianHolidays \<Rightarrow> nat" where
  "backMeasure tz d hs =
     3 * nat (toISODate d + 1 - lowest (toISODate d + 1) hs) +
     (if getDay tz d = 0 then 2 else if getDay tz d = 6 then 1 else 0)"

definition fwdMeasure :: "int \<Rightarrow> Date \<Rightarrow> ColombianHolidays \<Rightarrow> nat" where
  "fwdMeasure tz d hs =
     3 * nat (highest (toISODate d - 1) hs - (toISODate d - 1)) +
     (if getDay tz d = 6 then 2 else if getDay tz d = 0 then 1 else 0)"

lemma lowest_le: "lowest b hs \<le> b"
  by (induction hs) auto

lemma lowest_mem: "h \<in> set hs \<Longrightarrow> lowest b hs \<le> h"
  by (induction hs) auto

lemma lowest_pred: "lowest (b - 1) hs = min (b - 1) (lowest b hs)"
  by (induction hs) auto

lemma highest_ge: "b \<le> highest b hs"
  by (induction hs) auto

lemma highest_mem: "h \<in> set hs \<Longrightarrow> h \<le> highest b hs"
  by (induction hs) auto

lemma highest_succ: "highest (b + 1) hs = max (b + 1) (highest b hs)"
  by (induction hs) auto

lemma div_sub_self: "(c::int) \<noteq> 0 \<Longrightarrow> (a - c) div c = a div c - 1"
  using div_mult_self1 [of c a "- 1"] by simp

lemma div_add_self: "(c::int) \<noteq> 0 \<Longrightarrow> (a + c) div c = a div c + 1"
  using div_mult_self1 [of c a 1] by simp

lemma toISODate_subDays: "toISODate (subDays d 1) = toISODate d - 1"
  using div_sub_self [of 86400000 d]
  by (simp add: toISODate_def subDays_def addDays_def)

lemma toISODate_addDays: "toISODate (addDays d 1) = toISODate d + 1"
  using div_add_self [of 86400000 d]
  by (simp add: toISODate_def addDays_def)

lemma getDay_range: "0 \<le> getDay tz d \<and> getDay tz d < 7"
  by (simp add: getDay_def)

lemma localDay_subDays:
  "localTime tz (subDays d 1) div 86400000 = localTime tz d div 86400000 - 1"
proof -
  have e: "localTime tz (subDays d 1) = localTime tz d - 86400000"
    by (simp add: localTime_def subDays_def addDays_def)
  show ?thesis
    unfolding e by (rule div_sub_self) simp
qed

lemma localDay_addDays:
  "localTime tz (addDays d 1) div 86400000 = localTime tz d div 86400000 + 1"
proof -
  have e: "localTime tz (addDays d 1) = localTime tz d + 86400000"
    by (simp add: localTime_def addDays_def)
  show ?thesis
    unfolding e by (rule div_add_self) simp
qed

lemma mod7_pred: "((q::int) - 1 + 4) mod 7 = ((q + 4) mod 7 + 6) mod 7"
  by presburger

lemma mod7_succ: "((q::int) + 1 + 4) mod 7 = ((q + 4) mod 7 + 1) mod 7"
  by presburger

lemma getDay_subDays: "getDay tz (subDays d 1) = (getDay tz d + 6) mod 7"
  unfolding getDay_def localDay_subDays by (rule mod7_pred)

lemma getDay_addDays: "getDay tz (addDays d 1) = (getDay tz d + 1) mod 7"
  unfolding getDay_def localDay_addDays by (rule mod7_succ)

subsection \<open>The local fields of a date\<close>

lemma mod_shift: "(c::int) dvd k \<Longrightarrow> (L + k) mod c = L mod c"
  by (metis mod_add_self2 dvd_def mod_mult_self2 mult.commute)

lemma div_mult_add: "0 \<le> (r::int) \<Longrightarrow> r < c \<Longrightarrow> (r + k * c) div c = k"
  by simp

lemma mod_mult_add: "0 \<le> (r::int) \<Longrightarrow> r < c \<Longrightarrow> (r + k * c) mod c = r"
  by simp

lemma fields_of:
  fixes L D h m s :: int
  assumes h: "0 \<le> h" "h < 24" and m: "0 \<le> m" "m < 60" and s: "0 \<le> s" "s < 60000"
    and L: "L = D * 86400000 + h * 3600000 + m * 60000 + s"
  shows "L div 86400000 = D" and "(L mod 86400000) div 3600000 = h"
    and "(L mod 3600000) div 60000 = m" and "L mod 60000 = s"
proof -
  define r2 where "r2 = m * 60000 + s"
  define r where "r = h * 3600000 + r2"
  define k2 where "k2 = D * 24 + h"
  define k3 where "k3 = D * 1440 + h * 60 + m"
  have r2: "0 \<le> r2" "r2 < 3600000" using m s by (simp_all add: r2_def)
  have r: "0 \<le> r" "r < 86400000" using h r2 by (simp_all add: r_def)
  have L1: "L = r + D * 86400000" by (simp add: L r_def r2_def)
  have L2: "L = r2 + k2 * 3600000" by (simp add: L r2_def k2_def algebra_simps)
  have L3: "L = s + k3 * 60000" by (simp add: L k3_def algebra_simps)
  have rr: "r = r2 + h * 3600000" by (simp add: r_def)
  have r2r: "r2 = s + m * 60000" by (simp add: r2_def)
  show "L div 86400000 = D"
    unfolding L1 using r by (rule div_mult_add)
  have Lm: "L mod 86400000 = r"
    unfolding L1 using r by (rule mod_mult_add)
  have "r div 3600000 = h" unfolding rr using r2 by (rule div_mult_add)
  then show "(L mod 86400000) div 3600000 = h" unfolding Lm .
  have "L mod 3600000 = r2" unfolding L2 using r2 by (rule mod_mult_add)
  moreover have "r2 div 60000 = m" unfolding r2r using s by (rule div_mult_add)
  ultimately show "(L mod 3600000) div 60000 = m" by simp
  show "L mod 60000 = s" unfolding L3 using s by (rule mod_mult_add)
qed

lemma getHours_range: "0 \<le> getHours tz d \<and> getHours tz d < 24"
proof -
  define r where "r = localTime tz d mod 86400000"
  have r: "0 \<le> r" "r \<le> 86399999" by (simp_all add: r_def)
  have "0 div 3600000 \<le> r div 3600000" using r(1) by (intro zdiv_mono1) simp_all
  moreover have "r div 3600000 \<le> 86399999 div 3600000" using r(2) by (intro zdiv_mono1) simp_all
  ultimately show ?thesis unfolding getHours_def r_def [symmetric] by simp
qed

lemma getMinutes_range: "0 \<le> getMinutes tz d \<and> getMinutes tz d < 60"
proof -
  define r where "r = localTime tz d mod 3600000"
  have r: "0 \<le> r" "r \<le> 3599999" by (simp_all add: r_def)
  have "0 div 60000 \<le> r div 60000" using r(1) by (intro zdiv_mono1) simp_all
  moreover have "r div 60000 \<le> 3599999 div 60000" using r(2) by (intro zdiv_mono1) simp_all
  ultimately show ?thesis unfolding getMinutes_def r_def [symmetric] by simp
qed

lemma local_decomp:
  "localTime tz d = (localTime tz d div 86400000) * 86400000 + getHours tz d * 3600000
      + getMinutes tz d * 60000 + localTime tz d mod 60000"
proof -
  define L where "L = localTime tz d"
  have a: "L = (L div 86400000) * 86400000 + L mod 86400000" by simp
  have b: "L mod 86400000 = (L mod 86400000 div 3600000) * 3600000 + (L mod 86400000) mod 3600000"
    by simp
  have c: "(L mod 86400000) mod 3600000 = L mod 3600000"
    by (rule mod_mod_cancel) simp
  have d: "L mod 3600000 = (L mod 3600000 div 60000) * 60000 + (L mod 3600000) mod 60000"
    by simp
  have e: "(L mod 3600000) mod 60000 = L mod 60000"
    by (rule mod_mod_cancel) simp
  show ?thesis
    unfolding getHours_def getMinutes_def L_def [symmetric]
    using a b c d e by linarith
qed

lemma local_setMinutes:
  assumes "0 \<le> m" "m < 60"
  shows "localTime tz (setMinutes tz d m) div 86400000 = localTime tz d div 86400000"
    and "getHours tz (setMinutes tz d m) = getHours tz d"
    and "getMinutes tz (setMinutes tz d m) = m"
    and "localTime tz (setMinutes tz d m) mod 60000 = localTime tz d mod 60000"
proof -
  define L where "L = localTime tz d"
  define L' where "L' = localTime tz (setMinutes tz d m)"
  have s: "0 \<le> L mod 60000" "L mod 60000 < 60000" by simp_all
  have h: "0 \<le> getHours tz d" "getHours tz d < 24" using getHours_range by simp_all
  have "L' = L + (m - getMinutes tz d) * 60000"
    by (simp add: L'_def L_def localTime_def setMinutes_def)
  then have e: "L' = (L div 86400000) * 86400000 + getHours tz d * 3600000 + m * 60000 + L mod 60000"
    using local_decomp [of tz d] unfolding L_def [symmetric] by (simp add: algebra_simps)
  show "localTime tz (setMinutes tz d m) div 86400000 = localTime tz d div 86400000"
    unfolding L_def [symmetric] L'_def [symmetric] by (rule fields_of(1) [OF h assms s e])
  show "getHours tz (setMinutes tz d m) = getHours tz d"
    unfolding getHours_def [of tz "setMinutes tz d m"] L'_def [symmetric]
    by (rule fields_of(2) [OF h assms s e])
  show "getMinutes tz (setMinutes tz d m) = m"
    unfolding getMinutes_def [of tz "setMinutes tz d m"] L'_def [symmetric]
    by (rule fields_of(3) [OF h assms s e])
  show "localTime tz (setMinutes tz d m) mod 60000 = localTime tz d mod 60000"
    unfolding L_def [symmetric] L'_def [symmetric] by (rule fields_of(4) [OF h assms s e])
qed

lemma local_setHours:
  assumes "0 \<le> h" "h < 24"
  shows "localTime tz (setHours tz d h) div 86400000 = localTime tz d div 86400000"
    and "getHours tz (setHours tz d h) = h"
    and "getMinutes tz (setHours tz d h) = getMinutes tz d"
    and "localTime tz (setHours tz d h) mod 60000 = localTime tz d mod 60000"
proof -
  define L where "L = localTime tz d"
  define L' where "L' = localTime tz (setHours tz d h)"
  have s: "0 \<le> L mod 60000" "L mod 60000 < 60000" by simp_all
  have m: "0 \<le> getMinutes tz d" "getMinutes tz d < 60" using getMinutes_range by simp_all
  have "L' = L + (h - getHours tz d) * 3600000"
    by (simp add: L'_def L_def localTime_def setHours_def)
  then have e: "L' = (L div 86400000) * 86400000 + h * 3600000 + getMinutes tz d * 60000 + L mod 60000"
    using local_decomp [of tz d] unfolding L_def [symmetric] by (simp add: algebra_simps)
  show "localTime tz (setHours tz d h) div 86400000 = localTime tz d div 86400000"
    unfolding L_def [symmetric] L'_def [symmetric] by (rule fields_of(1) [OF assms m s e])
  show "getHours tz (setHours tz d h) = h"
    unfolding getHours_def [of tz "setHours tz d h"] L'_def [symmetric]
    by (rule fields_of(2) [OF assms m s e])
  show "getMinutes tz (setHours tz d h) = getMinutes tz d"
    unfolding getMinutes_def [of tz "setHours tz d h"] L'_def [symmetric]
    by (rule fields_of(3) [OF assms m s e])
  show "localTime tz (setHours tz d h) mod 60000 = localTime tz d mod 60000"
    unfolding L_def [symmetric] L'_def [symmetric] by (rule fields_of(4) [OF assms m s e])
qed

lemma getDay_setMinutes: "0 \<le> m \<Longrightarrow> m < 60 \<Longrightarrow> getDay tz (setMinutes tz d m) = getDay tz d"
  unfolding getDay_def by (simp add: local_setMinutes(1))

lemma getDay_setHours: "0 \<le> h \<Longrightarrow> h < 24 \<Longrightarrow> getDay tz (setHours tz d h) = getDay tz d"
  unfolding getDay_def by (simp add: local_setHours(1))

lemma getHours_addDays: "getHours tz (addDays d n) = getHours tz d"
proof -
  have "localTime tz (addDays d n) = localTime tz d + n * 86400000"
    by (simp add: localTime_def addDays_def)
  then show ?thesis unfolding getHours_def by simp
qed

lemma getMinutes_addDays: "getMinutes tz (addDays d n) = getMinutes tz d"
proof -
  have e: "localTime tz (addDays d n) = localTime tz d + n * 86400000"
    by (simp add: localTime_def addDays_def)
  show ?thesis unfolding getMinutes_def e by (simp add: mod_shift)
qed

lemma getHours_subDays: "getHours tz (subDays d n) = getHours tz d"
  by (simp add: subDays_def getHours_addDays)

lemma getMinutes_subDays: "getMinutes tz (subDays d n) = getMinutes tz d"
  by (simp add: subDays_def getMinutes_addDays)

lemma backMeasure_decreases:
  assumes "\<not> isBusinessDay tz d hs"
  shows "backMeasure tz (subDays d 1) hs < backMeasure tz d hs"
proof -
  define u where "u = toISODate d"
  define g where "g = getDay tz d"
  define lw where "lw = lowest (u + 1) hs"
  have g: "0 \<le> g" "g < 7" using getDay_range [of tz d] by (simp_all add: g_def)
  have lw: "lw \<le> u + 1" unfolding lw_def by (rule lowest_le)
  have low': "lowest u hs = min u lw"
    using lowest_pred [of "u + 1" hs] by (simp add: lw_def)
  have hol: "g \<noteq> 0 \<Longrightarrow> g \<noteq> 6 \<Longrightarrow> lw \<le> u"
    using assms lowest_mem [of u hs "u + 1"]
    by (simp add: isBusinessDay_def isHoliday_def Let_def u_def g_def lw_def)
  have g': "getDay tz (subDays d 1) = (g + 6) mod 7"
    by (simp add: getDay_subDays g_def)
  have m1: "backMeasure tz d hs = 3 * nat (u + 1 - lw) + (if g = 0 then 2 else if g = 6 then 1 else 0)"
    by (simp add: backMeasure_def u_def g_def lw_def)
  have m2: "backMeasure tz (subDays d 1) hs =
      3 * nat (u - min u lw) + (if (g + 6) mod 7 = 0 then 2 else if (g + 6) mod 7 = 6 then 1 else 0)"
    unfolding backMeasure_def g' toISODate_subDays u_def [symmetric] by (simp add: low')
  have le: "nat (u - min u lw) \<le> nat (u + 1 - lw)"
    using lw by (auto simp: min_def)
  consider "g = 0" | "g = 6" | "g \<noteq> 0" "g \<noteq> 6" by blast
  then show ?thesis
  proof cases
    case 1
    then show ?thesis unfolding m1 m2 using le by simp
  next
    case 2
    then show ?thesis unfolding m1 m2 using le by simp
  next
    case 3
    with hol have "lw \<le> u" by simp
    then have "3 * nat (u - min u lw) + 3 = 3 * nat (u + 1 - lw)" by (auto simp: min_def)
    moreover have "(if (g + 6) mod 7 = 0 then 2 else if (g + 6) mod 7 = 6 then 1 else 0) \<le> (2::nat)"
      by simp
    ultimately show ?thesis unfolding m1 m2 by linarith
  qed
qed

lemma fwdMeasure_decreases:
  assumes "\<not> isBusinessDay tz d hs"
  shows "fwdMeasure tz (addDays d 1) hs < fwdMeasure tz d hs"
proof -
  define u where "u = toISODate d"
  define g where "g = getDay tz d"
  define hi where "hi = highest (u - 1) hs"
  have g: "0 \<le> g" "g < 7" using getDay_range [of tz d] by (simp_all add: g_def)
  have hi: "u - 1 \<le> hi" unfolding hi_def by (rule highest_ge)
  have hi': "highest u hs = max u hi"
    using highest_succ [of "u - 1" hs] by (simp add: hi_def)
  have hol: "g \<noteq> 0 \<Longrightarrow> g \<noteq> 6 \<Longrightarrow> u \<le> hi"
    using assms highest_mem [of u hs "u - 1"]
    by (simp add: isBusinessDay_def isHoliday_def Let_def u_def g_def hi_def)
  have g': "getDay tz (addDays d 1) = (g + 1) mod 7"
    by (simp add: getDay_addDays g_def)
  have m1: "fwdMeasure tz d hs = 3 * nat (hi - (u - 1)) + (if g = 6 then 2 else if g = 0 then 1 else 0)"
    by (simp add: fwdMeasure_def u_def g_def hi_def)
  have m2: "fwdMeasure tz (addDays d 1) hs =
      3 * nat (max u hi - u) + (if (g + 1) mod 7 = 6 then 2 else if (g + 1) mod 7 = 0 then 1 else 0)"
    unfolding fwdMeasure_def g' toISODate_addDays u_def [symmetric] by (simp add: hi')
  have le: "nat (max u hi - u) \<le> nat (hi - (u - 1))"
    using hi by (auto simp: max_def)
  consider "g = 0" | "g = 6" | "g \<noteq> 0" "g \<noteq> 6" by blast
  then show ?thesis
  proof cases
    case 1
    then show ?thesis unfolding m1 m2 using le by simp
  next
    case 2
    then show ?thesis unfolding m1 m2 using le by simp
  next
    case 3
    with hol have "u \<le> hi" by simp
    then have "3 * nat (max u hi - u) + 3 = 3 * nat (hi - (u - 1))" by (auto simp: max_def)
    moreover have "(if (g + 1) mod 7 = 6 then 2 else if (g + 1) mod 7 = 0 then 1 else 0) \<le> (2::nat)"
      by simp
    ultimately show ?thesis unfolding m1 m2 by linarith
  qed
qed

section \<open>Business-time arithmetic (businessTime.ts)\<close>

text \<open>
  The \<open>while\<close> loops of the source are the recursive functions \<open>adjustWhile\<close> (the
  first loop of \<open>adjustToPrevBusinessTime\<close>, which also sets its flags),
  \<open>prevBusinessDay\<close> (its second loop), \<open>nextBusinessDay\<close> (the inner loop of
  \<open>addBusinessHours\<close>), \<open>addBusinessDaysWhile\<close> and \<open>addBusinessHoursWhile\<close>.
  Each is total: its termination is proved from the measures above. The counts of days
  and hours are integers (the validation layer passes on what \<open>parseInt\<close> returns).
\<close>

record TimeAdjustment =
  date :: Date
  wasAdjusted :: bool
  reason :: string

function adjustWhile ::
  "int \<Rightarrow> ColombianHolidays \<Rightarrow> Date \<times> bool \<times> string \<times> bool \<Rightarrow> Date \<times> bool \<times> string \<times> bool"
where
  "adjustWhile tz holidays (adjustedDate, wasAdj, rsn, movedToPrevBusinessDay) =
     (if \<not> isBusinessDay tz adjustedDate holidays
      then adjustWhile tz holidays
             (subDays adjustedDate 1, True, ''Moved to next business day (weekend/holiday)'', True)
      else (adjustedDate, wasAdj, rsn, movedToPrevBusinessDay))"
  by pat_completeness auto

termination
  by (relation "measure (\<lambda>(tz, holidays, adjustedDate, _). backMeasure tz adjustedDate holidays)")
    (auto simp: backMeasure_decreases)

function prevBusinessDay :: "int \<Rightarrow> Date \<Rightarrow> ColombianHolidays \<Rightarrow> Date" where
  "prevBusinessDay tz adjustedDate holidays =
     (if \<not> isBusinessDay tz adjustedDate holidays
      then prevBusinessDay tz (subDays adjustedDate 1) holidays
      else adjustedDate)"
  by pat_completeness auto

termination
  by (relation "measure (\<lambda>(tz, adjustedDate, holidays). backMeasure tz adjustedDate holidays)")
    (auto simp: backMeasure_decreases)

function nextBusinessDay :: "int \<Rightarrow> Date \<Rightarrow> ColombianHolidays \<Rightarrow> Date" where
  "nextBusinessDay tz currentDate holidays =
     (if \<not> isBusinessDay tz currentDate holidays
      then nextBusinessDay tz (addDays currentDate 1) holidays
      else currentDate)"
  by pat_completeness auto

termination
  by (relation "measure (\<lambda>(tz, currentDate, holidays). fwdMeasure tz currentDate holidays)")
    (auto simp: fwdMeasure_decreases)

definition adjustToPrevBusinessTime :: "int \<Rightarrow> Date \<Rightarrow> ColombianHolidays \<Rightarrow> TimeAdjustment" where
  "adjustToPrevBusinessTime tz date0 holidays =
     (case adjustWhile tz holidays (date0, False, [], False) of
        (adjustedDate, wasAdj, rsn, movedToPrevBusinessDay) \<Rightarrow>
          if movedToPrevBusinessDay
          then \<lparr>date = setHours tz (setMinutes tz adjustedDate 0) (end' WORKING_HOURS),
                wasAdjusted = wasAdj, reason = rsn\<rparr>
          else
            let hours = getHours tz adjustedDate;
                minutes = getMinutes tz adjustedDate;
                totalMinutes = hours * 60 + minutes
            in if totalMinutes < start WORKING_HOURS * 60
               then \<lparr>date = prevBusinessDay tz
                               (setHours tz (setMinutes tz (subDays adjustedDate 1) 0)
                                  (end' WORKING_HOURS))
                               holidays,
                     wasAdjusted = True,
                     reason = ''Adjusted to previoius business day end (5:00 PM)''\<rparr>
               else if totalMinutes \<ge> lunchStart WORKING_HOURS * 60 \<and>
                       totalMinutes < lunchEnd WORKING_HOURS * 60
               then \<lparr>date = setHours tz (setMinutes tz adjustedDate 0) (lunchStart WORKING_HOURS),
                     wasAdjusted = True,
                     reason = ''Adjusted to start of lunch break (12:00 PM)''\<rparr>
               else if totalMinutes \<ge> end' WORKING_HOURS * 60
               then \<lparr>date = setHours tz (setMinutes tz adjustedDate 0) (end' WORKING_HOURS),
                     wasAdjusted = True,
                     reason = ''Adjusted to end of business day (after hours)''\<rparr>
               else \<lparr>date = adjustedDate, wasAdjusted = wasAdj, reason = rsn\<rparr>)"

function addBusinessDaysWhile :: "int \<Rightarrow> ColombianHolidays \<Rightarrow> Date \<times> int \<Rightarrow> Date" where
  "addBusinessDaysWhile tz holidays (currentDate, remainingDays) =
     (if remainingDays > 0
      then addBusinessDaysWhile tz holidays
             (addDays currentDate 1,
              if isBusinessDay tz (addDays currentDate 1) holidays
              then remainingDays - 1 else remainingDays)
      else currentDate)"
  by pat_completeness auto

termination
  by (relation "measures [\<lambda>(tz, holidays, currentDate, remainingDays). nat remainingDays,
        \<lambda>(tz, holidays, currentDate, remainingDays). fwdMeasure tz (addDays currentDate 1) holidays]")
    (auto simp: fwdMeasure_decreases)

definition addBusinessDays :: "int \<Rightarrow> Date \<Rightarrow> int \<Rightarrow> ColombianHolidays \<Rightarrow> Date" where
  "addBusinessDays tz startDate businessDays holidays =
     (if businessDays = 0 then startDate
      else addBusinessDaysWhile tz holidays (startDate, businessDays))"

subsection \<open>What the day-stepping loops return\<close>

declare adjustWhile.simps [simp del]

declare prevBusinessDay.simps [simp del]

declare nextBusinessDay.simps [simp del]

declare addBusinessDaysWhile.simps [simp del]

lemma nextBusinessDay_isBusinessDay: "isBusinessDay tz (nextBusinessDay tz d hs) hs"
proof (induction tz d hs rule: nextBusinessDay.induct)
  case (1 tz d hs)
  then show ?case
    by (subst nextBusinessDay.simps) simp
qed

lemma nextBusinessDay_fields:
  "getHours tz (nextBusinessDay tz d hs) = getHours tz d \<and>
   getMinutes tz (nextBusinessDay tz d hs) = getMinutes tz d"
proof (induction tz d hs rule: nextBusinessDay.induct)
  case (1 tz d hs)
  then show ?case
    by (subst (1 2) nextBusinessDay.simps) (simp add: getHours_addDays getMinutes_addDays)
qed

lemma prevBusinessDay_isBusinessDay: "isBusinessDay tz (prevBusinessDay tz d hs) hs"
proof (induction tz d hs rule: prevBusinessDay.induct)
  case (1 tz d hs)
  then show ?case
    by (subst prevBusinessDay.simps) simp
qed

lemma prevBusinessDay_fields:
  "getHours tz (prevBusinessDay tz d hs) = getHours tz d \<and>
   getMinutes tz (prevBusinessDay tz d hs) = getMinutes tz d"
proof (induction tz d hs rule: prevBusinessDay.induct)
  case (1 tz d hs)
  then show ?case
    by (subst (1 2) prevBusinessDay.simps) (simp add: getHours_subDays getMinutes_subDays)
qed

lemma adjustWhile_businessDay:
  "isBusinessDay tz d hs \<Longrightarrow> adjustWhile tz hs (d, w, r, m) = (d, w, r, m)"
  by (subst adjustWhile.simps) simp

lemma prevBusinessDay_businessDay:
  "isBusinessDay tz d hs \<Longrightarrow> prevBusinessDay tz d hs = d"
  by (subst prevBusinessDay.simps) simp

lemma nextBusinessDay_businessDay:
  "isBusinessDay tz d hs \<Longrightarrow> nextBusinessDay tz d hs = d"
  by (subst nextBusinessDay.simps) simp

lemma adjustWhile_moved:
  "adjustWhile tz hs (d, True, ''Moved to next business day (weekend/holiday)'', True) =
     (prevBusinessDay tz d hs, True, ''Moved to next business day (weekend/holiday)'', True)"
proof (induction tz d hs rule: prevBusinessDay.induct)
  case (1 tz d hs)
  then show ?case
    by (subst adjustWhile.simps, subst prevBusinessDay.simps) simp
qed

lemma adjustWhile_prevBusinessDay:
  "\<not> isBusinessDay tz d hs \<Longrightarrow>
   adjustWhile tz hs (d, w, r, m) =
     (prevBusinessDay tz d hs, True, ''Moved to next business day (weekend/holiday)'', True)"
  by (subst adjustWhile.simps, subst prevBusinessDay.simps) (simp add: adjustWhile_moved)

lemma adjust_within:
  assumes "isBusinessDay tz d hs" and "isWithinWorkingHours tz d"
  shows "adjustToPrevBusinessTime tz d hs = \<lparr>date = d, wasAdjusted = False, reason = []\<rparr>"
  using assms
  by (auto simp: adjustToPrevBusinessTime_def adjustWhile_businessDay isWithinWorkingHours_def
      WORKING_HOURS_def Let_def)

subsection \<open>addBusinessHours and calculateBusinessTime\<close>

text \<open>
  \<open>addBusinessHoursStep\<close> is one pass through the body of the \<open>while\<close> loop of
  \<open>addBusinessHours\<close>, on the pair of \<open>currentDate\<close> and \<open>remainingMinutes\<close>. The loop
  ends: a pass either uses up minutes, or starts on a day with none left and moves to
  the morning of the next business day, which has some.
\<close>

definition addBusinessHoursStep :: "int \<Rightarrow> ColombianHolidays \<Rightarrow> Date \<times> int \<Rightarrow> Date \<times> int" where
  "addBusinessHoursStep tz holidays = (\<lambda>(currentDate0, remainingMinutes).
     let adjustment = adjustToPrevBusinessTime tz currentDate0 holidays;
         currentDate = date adjustment;
         currentHour = getHours tz currentDate;
         currentMinute = getMinutes tz currentDate;
         currentTotalMinutes = currentHour * 60 + currentMinute;
         availableMinutesUntilLunch =
           (if currentTotalMinutes < lunchStart WORKING_HOURS * 60
            then lunchStart WORKING_HOURS * 60 - currentTotalMinutes else 0);
         availableMinutesAfterLunch =
           (if currentTotalMinutes < end' WORKING_HOURS * 60
            then (let startAfterLunch = max currentTotalMinutes (lunchEnd WORKING_HOURS * 60)
                  in end' WORKING_HOURS * 60 - startAfterLunch)
            else 0);
         totalAvailableToday = availableMinutesUntilLunch + availableMinutesAfterLunch
     in if remainingMinutes \<le> totalAvailableToday
        then (if remainingMinutes \<le> availableMinutesUntilLunch
              then addMinutes currentDate remainingMinutes
              else (let minutesToLunch = availableMinutesUntilLunch;
                        minutesAfterLunch = remainingMinutes - minutesToLunch
                    in addMinutes
                         (setHours tz (setMinutes tz (addMinutes currentDate minutesToLunch) 0)
                            (lunchEnd WORKING_HOURS))
                         minutesAfterLunch),
              0)
        else (nextBusinessDay tz
                (setHours tz (setMinutes tz (addDays currentDate 1) 0) (start WORKING_HOURS))
                holidays,
              remainingMinutes - totalAvailableToday))"

text \<open>The minutes of business time left on the day, from a minute of the day.\<close>

definition availableToday :: "int \<Rightarrow> int" where
  "availableToday t =
     (if t < 720 then 720 - t else 0) + (if t < 1020 then 1020 - max t 780 else 0)"

definition dayIsSpent :: "int \<Rightarrow> ColombianHolidays \<Rightarrow> Date \<Rightarrow> nat" where
  "dayIsSpent tz holidays currentDate =
     (let a = date (adjustToPrevBusinessTime tz currentDate holidays)
      in if availableToday (getHours tz a * 60 + getMinutes tz a) = 0 then 1 else 0)"

lemma availableToday_nonneg: "0 \<le> availableToday t"
  by (simp add: availableToday_def)

lemma addBusinessHoursStep_eq:
  "addBusinessHoursStep tz hs (c, r) =
     (let a = date (adjustToPrevBusinessTime tz c hs);
          t = getHours tz a * 60 + getMinutes tz a
      in if r \<le> availableToday t
         then (if r \<le> (if t < 720 then 720 - t else 0)
               then addMinutes a r
               else addMinutes (setHours tz (setMinutes tz
                      (addMinutes a (if t < 720 then 720 - t else 0)) 0) 13)
                      (r - (if t < 720 then 720 - t else 0)),
               0)
         else (nextBusinessDay tz (setHours tz (setMinutes tz (addDays a 1) 0) 8) hs,
               r - availableToday t))"
  by (simp add: addBusinessHoursStep_def availableToday_def WORKING_HOURS_def Let_def)

lemma morning_start:
  assumes "getHours tz d = 8" "getMinutes tz d = 0" "isBusinessDay tz d hs"
  shows "dayIsSpent tz hs d = 0"
proof -
  have "isWithinWorkingHours tz d"
    using assms by (simp add: isWithinWorkingHours_def WORKING_HOURS_def)
  then have "date (adjustToPrevBusinessTime tz d hs) = d"
    using assms(3) by (simp add: adjust_within)
  then show ?thesis
    using assms by (simp add: dayIsSpent_def availableToday_def)
qed

lemma next_morning:
  "dayIsSpent tz hs (nextBusinessDay tz (setHours tz (setMinutes tz (addDays a 1) 0) 8) hs) = 0"
proof (rule morning_start)
  let ?d = "setHours tz (setMinutes tz (addDays a 1) 0) 8"
  have h: "getHours tz ?d = 8" by (simp add: local_setHours(2))
  have m: "getMinutes tz ?d = 0" by (simp add: local_setHours(3) local_setMinutes(3))
  show "getHours tz (nextBusinessDay tz ?d hs) = 8" using h nextBusinessDay_fields by simp
  show "getMinutes tz (nextBusinessDay tz ?d hs) = 0" using m nextBusinessDay_fields by simp
  show "isBusinessDay tz (nextBusinessDay tz ?d hs) hs" by (rule nextBusinessDay_isBusinessDay)
qed

lemma addBusinessHoursStep_decreases:
  assumes "0 < r" and "addBusinessHoursStep tz hs (c, r) = (c', r')"
  shows "nat r' < nat r \<or> (nat r' = nat r \<and> dayIsSpent tz hs c' < dayIsSpent tz hs c)"
proof -
  define a where "a = date (adjustToPrevBusinessTime tz c hs)"
  define t where "t = getHours tz a * 60 + getMinutes tz a"
  have av: "0 \<le> availableToday t" by (rule availableToday_nonneg)
  show ?thesis
  proof (cases "r \<le> availableToday t")
    case True
    then have "r' = 0"
      using assms(2) unfolding addBusinessHoursStep_eq a_def [symmetric] Let_def t_def [symmetric]
      by simp
    then show ?thesis using assms(1) by simp
  next
    case False
    then have c': "c' = nextBusinessDay tz (setHours tz (setMinutes tz (addDays a 1) 0) 8) hs"
      and r': "r' = r - availableToday t"
      using assms(2) unfolding addBusinessHoursStep_eq a_def [symmetric] Let_def t_def [symmetric]
      by simp_all
    show ?thesis
    proof (cases "availableToday t = 0")
      case True
      then have "dayIsSpent tz hs c = 1"
        by (simp add: dayIsSpent_def Let_def a_def t_def)
      moreover have "dayIsSpent tz hs c' = 0" unfolding c' by (rule next_morning)
      ultimately show ?thesis using r' True by simp
    next
      case False
      with av have "0 < availableToday t" by simp
      then show ?thesis using r' assms(1) by simp
    qed
  qed
qed

function addBusinessHoursWhile :: "int \<Rightarrow> ColombianHolidays \<Rightarrow> Date \<times> int \<Rightarrow> Date" where
  "addBusinessHoursWhile tz holidays (currentDate, remainingMinutes) =
     (if remainingMinutes > 0
      then addBusinessHoursWhile tz holidays
             (addBusinessHoursStep tz holidays (currentDate, remainingMinutes))
      else currentDate)"
  by pat_completeness auto

termination
proof (relation "measures [\<lambda>(tz, holidays, currentDate, remainingMinutes). nat remainingMinutes,
        \<lambda>(tz, holidays, currentDate, remainingMinutes). dayIsSpent tz holidays currentDate]",
    goal_cases)
  case 1
  show ?case by simp
next
  case (2 tz holidays currentDate remainingMinutes)
  obtain c' r' where s: "addBusinessHoursStep tz holidays (currentDate, remainingMinutes) = (c', r')"
    by (cases "addBusinessHoursStep tz holidays (currentDate, remainingMinutes)")
  from addBusinessHoursStep_decreases [OF 2 s] show ?case
    unfolding s by auto
qed

declare addBusinessHoursWhile.simps [simp del]

definition addBusinessHours :: "int \<Rightarrow> Date \<Rightarrow> int \<Rightarrow> ColombianHolidays \<Rightarrow> Date" where
  "addBusinessHours tz startDate businessHours holidays =
     (if businessHours = 0 then startDate
      else addBusinessHoursWhile tz holidays (startDate, businessHours * 60))"

text \<open>
  \<open>utcToZonedTime(d, 'America/Bogota')\<close> returns the date whose fields in the process
  time zone are the wall-clock fields of \<open>d\<close> in Bogota (UTC-5, no daylight saving);
  \<open>zonedTimeToUtc\<close> reads the fields in the process time zone as Bogota wall-clock time.
\<close>

definition utcToColombiaTime :: "int \<Rightarrow> Date \<Rightarrow> Date" where
  "utcToColombiaTime tz utcDate' = utcDate' - 18000000 - tz * 60000"

definition colombiaTimeToUtc :: "int \<Rightarrow> Date \<Rightarrow> Date" where
  "colombiaTimeToUtc tz colombiaDate = localTime tz colombiaDate + 18000000"

text \<open>
  \<open>clock\<close> is the instant \<open>new Date()\<close> gives (\<open>getCurrentColombiaTime\<close>). An absent
  argument (\<open>undefined\<close>) is \<open>None\<close>; \<open>businessDays && businessDays > 0\<close> holds for a
  number greater than 0.
\<close>

definition getCurrentColombiaTime :: "int \<Rightarrow> Date \<Rightarrow> Date" where
  "getCurrentColombiaTime tz clock = utcToColombiaTime tz clock"

definition calculateBusinessTime ::
  "int \<Rightarrow> Date \<Rightarrow> Date option \<Rightarrow> int option \<Rightarrow> int option \<Rightarrow> ColombianHolidays \<Rightarrow> Date" where
  "calculateBusinessTime tz clock startDate businessDays businessHours holidays =
     (let currentDate = (case startDate of Some s \<Rightarrow> utcToColombiaTime tz s
                         | None \<Rightarrow> getCurrentColombiaTime tz clock);
          adjustment = adjustToPrevBusinessTime tz currentDate holidays;
          currentDate = date adjustment;
          currentDate = (case businessDays of
                           Some n \<Rightarrow> if n > 0 then addBusinessDays tz currentDate n holidays
                                     else currentDate
                         | None \<Rightarrow> currentDate);
          currentDate = (case businessHours of
                           Some n \<Rightarrow> if n > 0 then addBusinessHours tz currentDate n holidays
                                     else currentDate
                         | None \<Rightarrow> currentDate)
      in colombiaTimeToUtc tz currentDate)"

section \<open>The holiday service (fallbackHolidays.ts, holidays.ts)\<close>

definition FALLBACK_COLOMBIAN_HOLIDAYS :: ColombianHolidays where
  "FALLBACK_COLOMBIAN_HOLIDAYS =
    [daysFromCivil 2024 1 1, daysFromCivil 2024 1 8, daysFromCivil 2024 3 25,
     daysFromCivil 2024 3 28, daysFromCivil 2024 3 29, daysFromCivil 2024 5 1,
     daysFromCivil 2024 5 13, daysFromCivil 2024 6 3, daysFromCivil 2024 6 10,
     daysFromCivil 2024 7 1, daysFromCivil 2024 7 20, daysFromCivil 2024 8 7,
     daysFromCivil 2024 8 19, daysFromCivil 2024 10 14, daysFromCivil 2024 11 4,
     daysFromCivil 2024 11 11, daysFromCivil 2024 12 8, daysFromCivil 2024 12 25,
     daysFromCivil 2025 1 1, daysFromCivil 2025 1 6, daysFromCivil 2025 3 24,
     daysFromCivil 2025 4 17, daysFromCivil 2025 4 18, daysFromCivil 2025 5 1,
     daysFromCivil 2025 6 2, daysFromCivil 2025 6 23, daysFromCivil 2025 6 30,
     daysFromCivil 2025 6 30, daysFromCivil 2025 7 20, daysFromCivil 2025 8 7,
     daysFromCivil 2025 8 18, daysFromCivil 2025 10 13, daysFromCivil 2025 11 3,
     daysFromCivil 2025 11 17, daysFromCivil 2025 12 8, daysFromCivil 2025 12 25]"

text \<open>
  An optional number is \<open>None\<close> when \<open>undefined\<close>. \<open>!y\<close> holds for \<open>undefined\<close> and
  for \<open>0\<close>. \<open>new Date(holiday)\<close> of a \<open>YYYY-MM-DD\<close> string is midnight UTC of that
  date, and \<open>getFullYear\<close> is its year in the process time zone.
\<close>

definition falsy :: "int option \<Rightarrow> bool" where
  "falsy y = (case y of None \<Rightarrow> True | Some n \<Rightarrow> n = 0)"

definition holidayYear :: "int \<Rightarrow> CalendarDate \<Rightarrow> int" where
  "holidayYear tz holiday = getFullYear tz (holiday * 86400000)"

definition getFallbackHolidays :: "int \<Rightarrow> int option \<Rightarrow> int option \<Rightarrow> ColombianHolidays" where
  "getFallbackHolidays tz startYear endYear =
     (if falsy startYear \<and> falsy endYear then FALLBACK_COLOMBIAN_HOLIDAYS
      else filter (\<lambda>holiday.
             let year = holidayYear tz holiday;
                 afterStart = (falsy startYear \<or> year \<ge> the startYear);
                 beforeEnd = (falsy endYear \<or> year \<le> the endYear)
             in afterStart \<and> beforeEnd) FALLBACK_COLOMBIAN_HOLIDAYS)"

datatype Phase = CLOSED | OPEN | HALF_OPEN

record CircuitBreakerState =
  failures :: int
  lastFailureTime :: int
  state :: Phase

datatype HolidayServiceStatus = HEALTHY | DEGRADED | FAILED

datatype DataSource = CACHE | API | FALLBACK

record HolidayServiceResult =
  holidays :: ColombianHolidays
  status :: HolidayServiceStatus
  source :: DataSource
  lastUpdated :: "int option"

text \<open>The static fields of the class \<open>HolidaysService\<close>, and their initial values.\<close>

record HolidaysService =
  cache :: "ColombianHolidays option"
  lastFetch :: int
  circuitBreaker :: CircuitBreakerState

definition initialService :: HolidaysService where
  "initialService =
     \<lparr>cache = None, lastFetch = 0,
      circuitBreaker = \<lparr>failures = 0, lastFailureTime = 0, state = CLOSED\<rparr>\<rparr>"

definition CACHE_DURATION :: int where "CACHE_DURATION = 24 * 60 * 60 * 1000"

definition MAX_FAILURES :: int where "MAX_FAILURES = 3"

definition CIRCUIT_TIMEOUT :: int where "CIRCUIT_TIMEOUT = 5 * 60 * 1000"

definition MAX_RETRIES :: nat where "MAX_RETRIES = 3"

definition BASE_DELAY :: real where "BASE_DELAY = 1000"

subsection \<open>The network, and what a call does to it\<close>

text \<open>
  \<open>axios.get\<close> either resolves with a response, whose \<open>data\<close> is an array or
  something else, or rejects with a value, which is an \<open>Error\<close> (with its message) or
  not. What a call of the service does is logged: each \<open>axios.get\<close> and each
  \<open>sleep\<close> with its delay in milliseconds. \<open>net k\<close> is the outcome of the request of
  attempt \<open>k\<close> and \<open>rnd k\<close> the value \<open>Math.random()\<close> returns before it. Delays are
  real numbers (the rounding of floating-point arithmetic is not modelled).
\<close>

datatype JsError = Error string

datatype Rejection = ErrorValue JsError | OtherValue

datatype Payload = ArrayData ColombianHolidays | OtherData

datatype Response = Resolved Payload | Rejected Rejection

datatype Event = Sleep real | Get

definition calculateBackoffDelay :: "int \<Rightarrow> real \<Rightarrow> real" where
  "calculateBackoffDelay attempt random =
     (let exponentialDelay = BASE_DELAY * 2 powi (attempt - 1);
          jitter = random * 0.1 * exponentialDelay
      in min (exponentialDelay + jitter) 10000)"

text \<open>
  One pass through the \<open>try\<close> block of \<open>fetchWithRetry\<close>: the array of the response, or
  the error the \<open>catch\<close> clause stores in \<open>lastError\<close>.
\<close>

definition attemptOutcome :: "Response \<Rightarrow> JsError + ColombianHolidays" where
  "attemptOutcome r =
     (case r of
        Resolved (ArrayData hs) \<Rightarrow> Inr hs
      | Resolved OtherData \<Rightarrow> Inl (Error ''Invalid response format from holidays service'')
      | Rejected (ErrorValue e) \<Rightarrow> Inl e
      | Rejected OtherValue \<Rightarrow> Inl (Error ''Unknown error''))"

function fetchLoop ::
  "(nat \<Rightarrow> Response) \<Rightarrow> (nat \<Rightarrow> real) \<Rightarrow> nat \<Rightarrow> JsError option \<Rightarrow> Event list
     \<Rightarrow> (JsError option + ColombianHolidays) \<times> Event list"
where
  "fetchLoop net rnd attempt lastError evs =
     (if attempt \<le> MAX_RETRIES
      then (let evs1 = (if attempt > 0
                        then evs @ [Sleep (calculateBackoffDelay (int attempt) (rnd attempt))]
                        else evs);
                evs2 = evs1 @ [Get]
            in case attemptOutcome (net attempt) of
                 Inr hs \<Rightarrow> (Inr hs, evs2)
               | Inl e \<Rightarrow> fetchLoop net rnd (attempt + 1) (Some e) evs2)
      else (Inl lastError, evs))"
  by pat_completeness auto

termination
  by (relation "measure (\<lambda>(net, rnd, attempt, lastError, evs). Suc MAX_RETRIES - attempt)") auto

declare fetchLoop.simps [simp del]

definition fetchWithRetry ::
  "(nat \<Rightarrow> Response) \<Rightarrow> (nat \<Rightarrow> real) \<Rightarrow> (JsError option + ColombianHolidays) \<times> Event list" where
  "fetchWithRetry net rnd = fetchLoop net rnd 0 None []"

subsection \<open>The circuit breaker and getColombianHolidays\<close>

definition isCircuitOpen :: "int \<Rightarrow> CircuitBreakerState \<Rightarrow> bool \<times> CircuitBreakerState" where
  "isCircuitOpen now cb =
     (if state cb = OPEN
      then (if now - lastFailureTime cb > CIRCUIT_TIMEOUT
            then (False, cb\<lparr>state := HALF_OPEN\<rparr>)
            else (True, cb))
      else (False, cb))"

definition recordFailure :: "int \<Rightarrow> CircuitBreakerState \<Rightarrow> CircuitBreakerState" where
  "recordFailure now cb =
     (let cb1 = cb\<lparr>failures := failures cb + 1, lastFailureTime := now\<rparr>
      in if failures cb1 \<ge> MAX_FAILURES then cb1\<lparr>state := OPEN\<rparr> else cb1)"

definition resetCircuitBreaker :: "CircuitBreakerState \<Rightarrow> CircuitBreakerState" where
  "resetCircuitBreaker cb = cb\<lparr>failures := 0, state := CLOSED\<rparr>"

text \<open>\<open>clock\<close> is the instant \<open>new Date()\<close> gives when \<open>getFallbackResult\<close> runs.\<close>

definition getFallbackResult :: "int \<Rightarrow> Date \<Rightarrow> HolidayServiceResult" where
  "getFallbackResult tz clock =
     (let currentYear = getFullYear tz clock;
          hs = getFallbackHolidays tz (Some currentYear) (Some (currentYear + 1))
      in \<lparr>holidays = hs, status = FAILED, source = FALLBACK, lastUpdated = None\<rparr>)"

text \<open>
  The environment of one call of \<open>getColombianHolidays\<close>: \<open>now\<close> is what \<open>Date.now()\<close>
  returns at its start. The call returns its result (\<open>Inl\<close> would be an error raised to
  the caller), the new values of the static fields and the log of its network activity.
\<close>

record Env =
  now :: int
  clock :: Date
  responses :: "nat \<Rightarrow> Response"
  randoms :: "nat \<Rightarrow> real"

definition fetchFresh ::
  "int \<Rightarrow> Env \<Rightarrow> HolidaysService
     \<Rightarrow> (JsError option + HolidayServiceResult) \<times> HolidaysService \<times> Event list" where
  "fetchFresh tz env s =
     (case isCircuitOpen (now env) (circuitBreaker s) of
        (isOpen, cb1) \<Rightarrow>
          let s1 = s\<lparr>circuitBreaker := cb1\<rparr>
          in if isOpen then (Inr (getFallbackResult tz (clock env)), s1, [])
             else (case fetchWithRetry (responses env) (randoms env) of
                     (Inr hs, evs) \<Rightarrow>
                       let s2 = s1\<lparr>circuitBreaker := resetCircuitBreaker (circuitBreaker s1),
                                    cache := Some hs, lastFetch := now env\<rparr>
                       in (Inr \<lparr>holidays = hs, status = HEALTHY, source = API,
                                lastUpdated = Some (now env)\<rparr>, s2, evs)
                   | (Inl error, evs) \<Rightarrow>
                       let s2 = s1\<lparr>circuitBreaker := recordFailure (now env) (circuitBreaker s1)\<rparr>
                       in (case cache s2 of
                             Some c \<Rightarrow>
                               (Inr \<lparr>holidays = c, status = DEGRADED, source = CACHE,
                                      lastUpdated = Some (lastFetch s2)\<rparr>, s2, evs)
                           | None \<Rightarrow> (Inr (getFallbackResult tz (clock env)), s2, evs))))"

definition getColombianHolidays ::
  "int \<Rightarrow> Env \<Rightarrow> HolidaysService
     \<Rightarrow> (JsError option + HolidayServiceResult) \<times> HolidaysService \<times> Event list" where
  "getColombianHolidays tz env s =
     (case cache s of
        Some c \<Rightarrow>
          if now env - lastFetch s < CACHE_DURATION
          then (Inr \<lparr>holidays = c, status = HEALTHY, source = CACHE,
                     lastUpdated = Some (lastFetch s)\<rparr>, s, [])
          else fetchFresh tz env s
      | None \<Rightarrow> fetchFresh tz env s)"

subsection \<open>What fetchWithRetry does, attempt by attempt\<close>

text \<open>
  An attempt has failed when its pass through the \<open>try\<close> block raised.
  \<open>attemptsLog rnd n\<close> is the network activity of \<open>n\<close> attempts: each is one request,
  and each but the first is preceded by its sleep.
\<close>

definition failed :: "Response \<Rightarrow> bool" where
  "failed r = isl (attemptOutcome r)"

definition attemptEvents :: "(nat \<Rightarrow> real) \<Rightarrow> nat \<Rightarrow> Event list" where
  "attemptEvents rnd k =
     (if k > 0 then [Sleep (calculateBackoffDelay (int k) (rnd k))] else []) @ [Get]"

definition attemptsLog :: "(nat \<Rightarrow> real) \<Rightarrow> nat \<Rightarrow> Event list" where
  "attemptsLog rnd n = concat (map (attemptEvents rnd) [0..<n])"



lemma fetchWithRetry_cases:
  "fetchWithRetry net rnd =
     (case attemptOutcome (net 0) of
        Inr hs \<Rightarrow> (Inr hs, attemptsLog rnd 1)
      | Inl e0 \<Rightarrow>
     (case attemptOutcome (net 1) of
        Inr hs \<Rightarrow> (Inr hs, attemptsLog rnd 2)
      | Inl e1 \<Rightarrow>
     (case attemptOutcome (net 2) of
        Inr hs \<Rightarrow> (Inr hs, attemptsLog rnd 3)
      | Inl e2 \<Rightarrow>
     (case attemptOutcome (net 3) of
        Inr hs \<Rightarrow> (Inr hs, attemptsLog rnd 4)
      | Inl e3 \<Rightarrow> (Inl (Some e3), attemptsLog rnd 4)))))"
proof -
  have n: "[0..<4] = [0, 1, 2, 3]" "[0..<3] = [0, 1, 2]" "[0..<2] = [0, 1]" "[0..<1] = [0]"
    by (simp_all add: upt_rec)
  have l4: "MAX_RETRIES < k \<Longrightarrow> fetchLoop net rnd k le evs = (Inl le, evs)" for k le evs
    by (subst fetchLoop.simps) simp
  have l3: "fetchLoop net rnd 3 le evs =
      (case attemptOutcome (net 3) of
         Inr hs \<Rightarrow> (Inr hs, evs @ attemptEvents rnd 3)
       | Inl e \<Rightarrow> (Inl (Some e), evs @ attemptEvents rnd 3))" for le evs
    by (subst fetchLoop.simps) (simp add: MAX_RETRIES_def attemptEvents_def l4 eval_nat_numeral split: sum.splits)
  have l2: "fetchLoop net rnd 2 le evs =
      (case attemptOutcome (net 2) of
         Inr hs \<Rightarrow> (Inr hs, evs @ attemptEvents rnd 2)
       | Inl e \<Rightarrow> fetchLoop net rnd 3 (Some e) (evs @ attemptEvents rnd 2))" for le evs
    by (subst fetchLoop.simps) (simp add: MAX_RETRIES_def attemptEvents_def eval_nat_numeral split: sum.splits)
  have l1: "fetchLoop net rnd 1 le evs =
      (case attemptOutcome (net 1) of
         Inr hs \<Rightarrow> (Inr hs, evs @ attemptEvents rnd 1)
       | Inl e \<Rightarrow> fetchLoop net rnd 2 (Some e) (evs @ attemptEvents rnd 1))" for le evs
    by (subst fetchLoop.simps) (simp add: MAX_RETRIES_def attemptEvents_def eval_nat_numeral split: sum.splits)
  have l0: "fetchLoop net rnd 0 le evs =
      (case attemptOutcome (net 0) of
         Inr hs \<Rightarrow> (Inr hs, evs @ attemptEvents rnd 0)
       | Inl e \<Rightarrow> fetchLoop net rnd 1 (Some e) (evs @ attemptEvents rnd 0))" for le evs
    by (subst fetchLoop.simps) (simp add: MAX_RETRIES_def attemptEvents_def eval_nat_numeral split: sum.splits)
  show ?thesis
    unfolding fetchWithRetry_def l0 l1 l2 l3 attemptsLog_def n
    by (simp split: sum.splits)
qed


section \<open>Properties of the model\<close>

subsection \<open>adjustToPrevBusinessTime, branch by branch\<close>

lemma setHours_setMinutes_fields:
  assumes "0 \<le> h" "h < 24"
  shows "getHours tz (setHours tz (setMinutes tz d 0) h) = h"
    and "getMinutes tz (setHours tz (setMinutes tz d 0) h) = 0"
    and "localTime tz (setHours tz (setMinutes tz d 0) h) div 86400000
           = localTime tz d div 86400000"
    and "localTime tz (setHours tz (setMinutes tz d 0) h) mod 60000 = localTime tz d mod 60000"
    and "getDay tz (setHours tz (setMinutes tz d 0) h) = getDay tz d"
  using assms
  by (simp_all add: local_setHours local_setMinutes getDay_setHours getDay_setMinutes)

lemma setHours_setMinutes_fixed:
  "getHours tz d = h \<Longrightarrow> getMinutes tz d = 0 \<Longrightarrow> setHours tz (setMinutes tz d 0) h = d"
  by (simp add: setHours_def setMinutes_def)

lemma adjust_businessDay:
  assumes "isBusinessDay tz d hs"
  shows "adjustToPrevBusinessTime tz d hs =
     (let totalMinutes = getHours tz d * 60 + getMinutes tz d
      in if totalMinutes < 480
         then \<lparr>date = prevBusinessDay tz (setHours tz (setMinutes tz (subDays d 1) 0) 17) hs,
               wasAdjusted = True,
               reason = ''Adjusted to previoius business day end (5:00 PM)''\<rparr>
         else if 720 \<le> totalMinutes \<and> totalMinutes < 780
         then \<lparr>date = setHours tz (setMinutes tz d 0) 12, wasAdjusted = True,
               reason = ''Adjusted to start of lunch break (12:00 PM)''\<rparr>
         else if 1020 \<le> totalMinutes
         then \<lparr>date = setHours tz (setMinutes tz d 0) 17, wasAdjusted = True,
               reason = ''Adjusted to end of business day (after hours)''\<rparr>
         else \<lparr>date = d, wasAdjusted = False, reason = []\<rparr>)"
  by (simp add: adjustToPrevBusinessTime_def adjustWhile_businessDay [OF assms]
      WORKING_HOURS_def Let_def)

lemma adjust_not_businessDay:
  assumes "\<not> isBusinessDay tz d hs"
  shows "adjustToPrevBusinessTime tz d hs =
     \<lparr>date = setHours tz (setMinutes tz (prevBusinessDay tz d hs) 0) 17, wasAdjusted = True,
      reason = ''Moved to next business day (weekend/holiday)''\<rparr>"
  by (simp add: adjustToPrevBusinessTime_def adjustWhile_prevBusinessDay [OF assms]
      WORKING_HOURS_def)

lemma hour_minute_unique:
  fixes h m :: int
  assumes "h * 60 + m = k * 60" "0 \<le> m" "m < 60"
  shows "h = k \<and> m = 0"
proof -
  define q where "q = k - h"
  have m: "m = q * 60" using assms(1) by (simp add: q_def algebra_simps)
  have "q * 60 < 1 * 60" "(- 1) * 60 < q * 60" using assms(2,3) m by simp_all
  then have "q < 1" "- 1 < q" by simp_all
  then have "q = 0" by simp
  then show ?thesis using m by (simp add: q_def)
qed

lemma subDays_subDays: "subDays (subDays d a) b = subDays d (a + b)"
  by (simp add: subDays_def addDays_def algebra_simps)

lemma localDay_subDays_n:
  "localTime tz (subDays d n) div 86400000 = localTime tz d div 86400000 - n"
proof -
  have "localTime tz (subDays d n) = localTime tz d + (- n) * 86400000"
    by (simp add: localTime_def subDays_def addDays_def)
  then show ?thesis by simp
qed

lemma localMs_subDays: "localTime tz (subDays d n) mod 60000 = localTime tz d mod 60000"
proof -
  have "localTime tz (subDays d n) = localTime tz d + (- n * 1440) * 60000"
    by (simp add: localTime_def subDays_def addDays_def)
  then show ?thesis by (simp only: mod_mult_self1)
qed

lemma prevBusinessDay_least:
  "\<exists>n\<ge>0. prevBusinessDay tz d hs = subDays d n \<and>
          isBusinessDay tz (subDays d n) hs \<and>
          (\<forall>k. 0 \<le> k \<and> k < n \<longrightarrow> \<not> isBusinessDay tz (subDays d k) hs)"
proof (induction tz d hs rule: prevBusinessDay.induct)
  case (1 tz d hs)
  show ?case
  proof (cases "isBusinessDay tz d hs")
    case True
    have z: "subDays d 0 = d" by (simp add: subDays_def addDays_def)
    show ?thesis
      by (rule exI [of _ 0]) (auto simp: prevBusinessDay_businessDay [OF True] z True)
  next
    case False
    from "1.IH" [OF False] obtain n where n: "0 \<le> n"
      "prevBusinessDay tz (subDays d 1) hs = subDays (subDays d 1) n"
      "isBusinessDay tz (subDays (subDays d 1) n) hs"
      "\<forall>k. 0 \<le> k \<and> k < n \<longrightarrow> \<not> isBusinessDay tz (subDays (subDays d 1) k) hs"
      by blast
    have p: "prevBusinessDay tz d hs = subDays d (1 + n)"
      using False n(2) by (subst prevBusinessDay.simps) (simp add: subDays_subDays)
    have b: "isBusinessDay tz (subDays d (1 + n)) hs"
      using n(3) by (simp add: subDays_subDays)
    have l: "\<not> isBusinessDay tz (subDays d k) hs" if k: "0 \<le> k \<and> k < 1 + n" for k
    proof (cases "k = 0")
      case True
      then show ?thesis using False by (simp add: subDays_def addDays_def)
    next
      case False
      then have "0 \<le> k - 1 \<and> k - 1 < n" using k by simp
      then have "\<not> isBusinessDay tz (subDays (subDays d 1) (k - 1)) hs" using n(4) by blast
      then show ?thesis by (simp add: subDays_subDays)
    qed
    show ?thesis
      using n(1) p b l by (intro exI [of _ "1 + n"]) simp
  qed
qed

lemma adjust_fixed_point:
  assumes b: "isBusinessDay tz r H"
    and t: "(getHours tz r = 17 \<and> getMinutes tz r = 0) \<or>
            (getHours tz r = 12 \<and> getMinutes tz r = 0) \<or> isWithinWorkingHours tz r"
  shows "date (adjustToPrevBusinessTime tz r H) = r"
  using t
proof (elim disjE)
  assume a: "getHours tz r = 17 \<and> getMinutes tz r = 0"
  then have "setHours tz (setMinutes tz r 0) 17 = r" by (simp add: setHours_setMinutes_fixed)
  then show ?thesis using a by (simp add: adjust_businessDay [OF b] Let_def)
next
  assume a: "getHours tz r = 12 \<and> getMinutes tz r = 0"
  then have "setHours tz (setMinutes tz r 0) 12 = r" by (simp add: setHours_setMinutes_fixed)
  then show ?thesis using a by (simp add: adjust_businessDay [OF b] Let_def)
next
  assume "isWithinWorkingHours tz r"
  then show ?thesis by (simp add: adjust_within [OF b])
qed

lemma working_hours_same_date:
  assumes tz: "- 420 \<le> tz" "tz \<le> 480" and w: "isWithinWorkingHours tz d"
  shows "toISODate d = localTime tz d div 86400000"
proof -
  define L where "L = localTime tz d"
  define D where "D = L div 86400000"
  define t where "t = getHours tz d * 60 + getMinutes tz d"
  define ms where "ms = L mod 60000"
  have ms: "0 \<le> ms" "ms < 60000" by (simp_all add: ms_def)
  have t: "480 \<le> t" "t < 1020"
    using w unfolding isWithinWorkingHours_def WORKING_HOURS_def Let_def t_def by simp_all linarith+
  have "L = D * 86400000 + t * 60000 + ms"
    using local_decomp [of tz d] by (simp add: L_def D_def t_def ms_def algebra_simps)
  then have d: "d = (t * 60000 + ms - tz * 60000) + D * 86400000"
    by (simp add: L_def localTime_def)
  have r: "0 \<le> t * 60000 + ms - tz * 60000" "t * 60000 + ms - tz * 60000 < 86400000"
    using t ms tz by simp_all
  have "d div 86400000 = D"
    by (subst d) (rule div_mult_add [OF r])
  then show ?thesis by (simp add: toISODate_def D_def L_def)
qed

lemma isBusinessDay_utc_day:
  assumes "localTime 0 d div 86400000 = localTime 0 d' div 86400000"
  shows "isBusinessDay 0 d H = isBusinessDay 0 d' H"
  using assms by (simp add: isBusinessDay_def isHoliday_def toISODate_def getDay_def localTime_def)

text \<open>
  In a process that runs in UTC the date \<open>isHoliday\<close> reads is the date of the local
  fields, and the adjustment is idempotent. (In other time zones it is not: see the
  claim C5 below.)
\<close>

lemma adjust_idempotent_utc:
  "date (adjustToPrevBusinessTime 0 (date (adjustToPrevBusinessTime 0 x H)) H)
     = date (adjustToPrevBusinessTime 0 x H)"
proof (cases "isBusinessDay 0 x H")
  case False
  let ?p = "prevBusinessDay 0 x H"
  let ?r = "setHours 0 (setMinutes 0 ?p 0) 17"
  have r: "date (adjustToPrevBusinessTime 0 x H) = ?r"
    by (simp add: adjust_not_businessDay [OF False])
  have h: "(0::int) \<le> 17" "(17::int) < 24" by simp_all
  have "isBusinessDay 0 ?r H = isBusinessDay 0 ?p H"
    by (rule isBusinessDay_utc_day) (rule setHours_setMinutes_fields(3) [OF h])
  then have b: "isBusinessDay 0 ?r H" by (simp add: prevBusinessDay_isBusinessDay)
  show ?thesis unfolding r
    by (rule adjust_fixed_point [OF b]) (simp add: setHours_setMinutes_fields [OF h])
next
  case True
  define t where "t = getHours 0 x * 60 + getMinutes 0 x"
  have h17: "(0::int) \<le> 17" "(17::int) < 24" and h12: "(0::int) \<le> 12" "(12::int) < 24"
    by simp_all
  consider "t < 480" | "720 \<le> t \<and> t < 780" | "1020 \<le> t"
    | "\<not> t < 480" "\<not> (720 \<le> t \<and> t < 780)" "\<not> 1020 \<le> t" by blast
  then show ?thesis
  proof cases
    case 1
    let ?r = "prevBusinessDay 0 (setHours 0 (setMinutes 0 (subDays x 1) 0) 17) H"
    have r: "date (adjustToPrevBusinessTime 0 x H) = ?r"
      using 1 by (simp add: adjust_businessDay [OF True] Let_def t_def)
    have b: "isBusinessDay 0 ?r H" by (rule prevBusinessDay_isBusinessDay)
    show ?thesis unfolding r
      by (rule adjust_fixed_point [OF b])
        (simp add: prevBusinessDay_fields setHours_setMinutes_fields [OF h17])
  next
    case 2
    let ?r = "setHours 0 (setMinutes 0 x 0) 12"
    have r: "date (adjustToPrevBusinessTime 0 x H) = ?r"
      using 2 by (simp add: adjust_businessDay [OF True] Let_def t_def)
    have "isBusinessDay 0 ?r H = isBusinessDay 0 x H"
      by (rule isBusinessDay_utc_day) (rule setHours_setMinutes_fields(3) [OF h12])
    then have b: "isBusinessDay 0 ?r H" using True by simp
    show ?thesis unfolding r
      by (rule adjust_fixed_point [OF b]) (simp add: setHours_setMinutes_fields [OF h12])
  next
    case 3
    let ?r = "setHours 0 (setMinutes 0 x 0) 17"
    have "\<not> t < 480" "\<not> (720 \<le> t \<and> t < 780)" using 3 by simp_all
    then have r: "date (adjustToPrevBusinessTime 0 x H) = ?r"
      using 3 by (simp add: adjust_businessDay [OF True] Let_def t_def)
    have "isBusinessDay 0 ?r H = isBusinessDay 0 x H"
      by (rule isBusinessDay_utc_day) (rule setHours_setMinutes_fields(3) [OF h17])
    then have b: "isBusinessDay 0 ?r H" using True by simp
    show ?thesis unfolding r
      by (rule adjust_fixed_point [OF b]) (simp add: setHours_setMinutes_fields [OF h17])
  next
    case 4
    then have r: "date (adjustToPrevBusinessTime 0 x H) = x"
      by (auto simp: adjust_businessDay [OF True] Let_def t_def)
    have "isWithinWorkingHours 0 x"
      using 4 unfolding isWithinWorkingHours_def WORKING_HOURS_def Let_def t_def
      by simp linarith
    then show ?thesis unfolding r by (simp add: adjust_within [OF True])
  qed
qed

subsection \<open>The holiday service\<close>

lemma getFallbackHolidays_range:
  assumes "0 < y"
  shows "getFallbackHolidays tz (Some y) (Some (y + 1)) =
           filter (\<lambda>h. y \<le> holidayYear tz h \<and> holidayYear tz h \<le> y + 1)
             FALLBACK_COLOMBIAN_HOLIDAYS"
  using assms by (simp add: getFallbackHolidays_def falsy_def Let_def)

lemma failedD: "failed r \<Longrightarrow> \<exists>e. attemptOutcome r = Inl e"
  by (simp add: failed_def isl_def)

lemma fetch_fails_at:
  assumes "attemptOutcome (net 0) = Inl e0" "attemptOutcome (net 1) = Inl e1"
    "attemptOutcome (net 2) = Inl e2" "attemptOutcome (net 3) = Inl e3"
  shows "fetchWithRetry net rnd = (Inl (Some e3), attemptsLog rnd 4)"
  using assms unfolding fetchWithRetry_cases by simp

lemma fetch_succeeds_at:
  shows "attemptOutcome (net 0) = Inr hs \<Longrightarrow>
           fetchWithRetry net rnd = (Inr hs, attemptsLog rnd 1)"
    and "attemptOutcome (net 0) = Inl e0 \<Longrightarrow> attemptOutcome (net 1) = Inr hs \<Longrightarrow>
           fetchWithRetry net rnd = (Inr hs, attemptsLog rnd 2)"
    and "attemptOutcome (net 0) = Inl e0 \<Longrightarrow> attemptOutcome (net 1) = Inl e1 \<Longrightarrow>
         attemptOutcome (net 2) = Inr hs \<Longrightarrow>
           fetchWithRetry net rnd = (Inr hs, attemptsLog rnd 3)"
    and "attemptOutcome (net 0) = Inl e0 \<Longrightarrow> attemptOutcome (net 1) = Inl e1 \<Longrightarrow>
         attemptOutcome (net 2) = Inl e2 \<Longrightarrow> attemptOutcome (net 3) = Inr hs \<Longrightarrow>
           fetchWithRetry net rnd = (Inr hs, attemptsLog rnd 4)"
  unfolding fetchWithRetry_cases by simp_all

lemma fetch_log_cases:
  "snd (fetchWithRetry net rnd) \<in>
     {attemptsLog rnd 1, attemptsLog rnd 2, attemptsLog rnd 3, attemptsLog rnd 4}"
  unfolding fetchWithRetry_cases by (simp split: sum.splits)

lemma fetch_log_nonempty: "snd (fetchWithRetry net rnd) \<noteq> []"
  using fetch_log_cases [of net rnd]
  by (auto simp: attemptsLog_def attemptEvents_def upt_rec)

lemma fetch_all_failed:
  assumes "\<forall>k<4. failed (responses env k)"
  shows "\<exists>e. fetchWithRetry (responses env) (randoms env) = (Inl (Some e), attemptsLog (randoms env) 4)"
proof -
  have "failed (responses env 0)" "failed (responses env 1)" "failed (responses env 2)"
    "failed (responses env 3)" using assms by simp_all
  then obtain e0 e1 e2 e3 where "attemptOutcome (responses env 0) = Inl e0"
    "attemptOutcome (responses env 1) = Inl e1" "attemptOutcome (responses env 2) = Inl e2"
    "attemptOutcome (responses env 3) = Inl e3"
    by (meson failedD)
  then show ?thesis using fetch_fails_at by blast
qed

lemma fetchFresh_cases:
  "fetchFresh tz env s =
     (if state (circuitBreaker s) = OPEN \<and> \<not> now env - lastFailureTime (circuitBreaker s) > CIRCUIT_TIMEOUT
      then (Inr (getFallbackResult tz (clock env)), s, [])
      else let cb1 = (if state (circuitBreaker s) = OPEN
                      then (circuitBreaker s)\<lparr>state := HALF_OPEN\<rparr> else circuitBreaker s)
           in case fetchWithRetry (responses env) (randoms env) of
                (Inr hs, evs) \<Rightarrow>
                  (Inr \<lparr>holidays = hs, status = HEALTHY, source = API, lastUpdated = Some (now env)\<rparr>,
                   \<lparr>cache = Some hs, lastFetch = now env,
                    circuitBreaker = cb1\<lparr>failures := 0, state := CLOSED\<rparr>\<rparr>, evs)
              | (Inl e, evs) \<Rightarrow>
                  (case cache s of
                     Some c \<Rightarrow> Inr \<lparr>holidays = c, status = DEGRADED, source = CACHE,
                                     lastUpdated = Some (lastFetch s)\<rparr>
                   | None \<Rightarrow> Inr (getFallbackResult tz (clock env)),
                   s\<lparr>circuitBreaker := recordFailure (now env) cb1\<rparr>, evs))"
  by (cases s)
    (simp add: fetchFresh_def isCircuitOpen_def resetCircuitBreaker_def Let_def
      split: sum.splits prod.splits option.splits)

lemma getColombianHolidays_cases:
  "getColombianHolidays tz env s =
     (if cache s \<noteq> None \<and> now env - lastFetch s < CACHE_DURATION
      then (Inr \<lparr>holidays = the (cache s), status = HEALTHY, source = CACHE,
                 lastUpdated = Some (lastFetch s)\<rparr>, s, [])
      else fetchFresh tz env s)"
  by (simp add: getColombianHolidays_def split: option.splits)

lemma recordFailure_fields:
  "failures (recordFailure t cb) = failures cb + 1"
  "lastFailureTime (recordFailure t cb) = t"
  "state (recordFailure t cb) = (if 3 \<le> failures cb + 1 then OPEN else state cb)"
  by (simp_all add: recordFailure_def MAX_FAILURES_def Let_def)

text \<open>
  \<open>reachable s t\<close>: the static fields have the value \<open>s\<close> after a sequence of calls of
  \<open>getColombianHolidays\<close> made one after the other, from the initial values, at times
  that never decrease, the last of them not after \<open>t\<close>. (Calls that overlap in time are
  not modelled.)
\<close>

inductive reachable :: "HolidaysService \<Rightarrow> int \<Rightarrow> bool" where
  initial: "reachable initialService t"
| call: "reachable s t \<Longrightarrow> t \<le> now env \<Longrightarrow> getColombianHolidays tz env s = (r, s', evs)
          \<Longrightarrow> reachable s' (now env)"

definition breakerInvariant :: "HolidaysService \<Rightarrow> int \<Rightarrow> bool" where
  "breakerInvariant s t =
     (0 \<le> failures (circuitBreaker s) \<and>
      state (circuitBreaker s) \<noteq> HALF_OPEN \<and>
      (state (circuitBreaker s) = OPEN) = (3 \<le> failures (circuitBreaker s)) \<and>
      (if 0 < failures (circuitBreaker s)
       then lastFailureTime (circuitBreaker s) \<le> t \<and>
            (case cache s of None \<Rightarrow> True
             | Some c \<Rightarrow> CACHE_DURATION \<le> lastFailureTime (circuitBreaker s) - lastFetch s)
       else True))"

lemma invariant_step:
  assumes inv: "breakerInvariant s t" and t: "t \<le> now env"
    and c: "getColombianHolidays tz env s = (r, s', evs)"
  shows "breakerInvariant s' (now env)"
proof (cases "cache s \<noteq> None \<and> now env - lastFetch s < CACHE_DURATION")
  case True
  then have "s' = s" using c by (simp add: getColombianHolidays_cases)
  then show ?thesis using inv t by (auto simp: breakerInvariant_def split: option.splits)
next
  case miss: False
  then have ff: "fetchFresh tz env s = (r, s', evs)"
    using c unfolding getColombianHolidays_cases by (simp only: if_False)
  show ?thesis
  proof (cases "state (circuitBreaker s) = OPEN \<and>
      \<not> now env - lastFailureTime (circuitBreaker s) > CIRCUIT_TIMEOUT")
    case True
    then have "s' = s" using ff by (simp add: fetchFresh_cases)
    then show ?thesis using inv t by (auto simp: breakerInvariant_def split: option.splits)
  next
    case go: False
    obtain res lg where f: "fetchWithRetry (responses env) (randoms env) = (res, lg)"
      by (cases "fetchWithRetry (responses env) (randoms env)")
    show ?thesis
    proof (cases res)
      case (Inr hs)
      then have "s' = \<lparr>cache = Some hs, lastFetch = now env,
          circuitBreaker = (if state (circuitBreaker s) = OPEN
             then (circuitBreaker s)\<lparr>state := HALF_OPEN\<rparr> else circuitBreaker s)
             \<lparr>failures := 0, state := CLOSED\<rparr>\<rparr>"
        using ff go f by (simp add: fetchFresh_cases Let_def)
      then show ?thesis by (simp add: breakerInvariant_def)
    next
      case (Inl e)
      then have s': "s' = s\<lparr>circuitBreaker := recordFailure (now env)
          (if state (circuitBreaker s) = OPEN
             then (circuitBreaker s)\<lparr>state := HALF_OPEN\<rparr> else circuitBreaker s)\<rparr>"
        using ff go f by (simp add: fetchFresh_cases Let_def)
      show ?thesis
        using inv miss unfolding s' breakerInvariant_def
        by (auto simp: recordFailure_fields split: option.splits if_splits)
    qed
  qed
qed

lemma reachable_invariant: "reachable s t \<Longrightarrow> breakerInvariant s t"
proof (induction rule: reachable.induct)
  case (initial t)
  show ?case by (simp add: breakerInvariant_def initialService_def)
next
  case (call s t env tz r s' evs)
  then show ?case using invariant_step by blast
qed

subsection \<open>Concrete states, environments and dates\<close>

text \<open>
  \<open>downEnv t\<close> is a call at time \<open>t\<close> while every request times out, \<open>upEnv t\<close> one
  while the holiday source answers, \<open>flakyNet\<close> a source whose first two answers are not
  arrays. \<open>openService\<close> is the state after three calls at time 0 that exhausted their
  retries.
\<close>

definition cachedService :: HolidaysService where
  "cachedService =
     \<lparr>cache = Some [daysFromCivil 2025 12 25], lastFetch = 1000,
      circuitBreaker = \<lparr>failures = 0, lastFailureTime = 0, state = CLOSED\<rparr>\<rparr>"

definition downEnv :: "int \<Rightarrow> Env" where
  "downEnv t =
     \<lparr>now = t, clock = t, responses = (\<lambda>k. Rejected (ErrorValue (Error ''timeout''))),
      randoms = (\<lambda>k. 1 / 2)\<rparr>"

definition upEnv :: "int \<Rightarrow> Env" where
  "upEnv t =
     \<lparr>now = t, clock = t, responses = (\<lambda>k. Resolved (ArrayData [daysFromCivil 2025 12 25])),
      randoms = (\<lambda>k. 1 / 2)\<rparr>"


definition openService :: HolidaysService where
  "openService =
     \<lparr>cache = None, lastFetch = 0,
      circuitBreaker = \<lparr>failures = 3, lastFailureTime = 0, state = OPEN\<rparr>\<rparr>"

lemma down_call:
  assumes "cache s = None" and "state (circuitBreaker s) = CLOSED"
  shows "getColombianHolidays tz (downEnv t) s =
           (Inr (getFallbackResult tz t),
            s\<lparr>circuitBreaker := recordFailure t (circuitBreaker s)\<rparr>,
            attemptsLog (\<lambda>k. 1 / 2) 4)"
proof -
  have f: "fetchWithRetry (responses (downEnv t)) (randoms (downEnv t)) =
      (Inl (Some (Error ''timeout'')), attemptsLog (randoms (downEnv t)) 4)"
    by (rule fetch_fails_at) (simp_all add: downEnv_def attemptOutcome_def)
  show ?thesis
    using assms unfolding getColombianHolidays_cases fetchFresh_cases f
    by (simp add: downEnv_def)
qed

lemma reachable_openService: "reachable openService 0"
proof -
  let ?s1 = "initialService\<lparr>circuitBreaker :=
      \<lparr>failures = 1, lastFailureTime = 0, state = CLOSED\<rparr>\<rparr>"
  let ?s2 = "initialService\<lparr>circuitBreaker :=
      \<lparr>failures = 2, lastFailureTime = 0, state = CLOSED\<rparr>\<rparr>"
  have n: "now (downEnv 0) = 0" by (simp add: downEnv_def)
  have c1: "getColombianHolidays 0 (downEnv 0) initialService =
      (Inr (getFallbackResult 0 0), ?s1, attemptsLog (\<lambda>k. 1 / 2) 4)"
    by (subst down_call) (simp_all add: initialService_def recordFailure_def MAX_FAILURES_def)
  have c2: "getColombianHolidays 0 (downEnv 0) ?s1 =
      (Inr (getFallbackResult 0 0), ?s2, attemptsLog (\<lambda>k. 1 / 2) 4)"
    by (subst down_call) (simp_all add: initialService_def recordFailure_def MAX_FAILURES_def)
  have c3: "getColombianHolidays 0 (downEnv 0) ?s2 =
      (Inr (getFallbackResult 0 0), openService, attemptsLog (\<lambda>k. 1 / 2) 4)"
    by (subst down_call)
      (simp_all add: initialService_def recordFailure_def MAX_FAILURES_def openService_def)
  have r0: "reachable initialService 0" by (rule reachable.initial)
  have r1: "reachable ?s1 (now (downEnv 0))"
    by (rule reachable.call [OF r0 _ c1]) (simp add: n)
  have r2: "reachable ?s2 (now (downEnv 0))"
    by (rule reachable.call [OF r1 _ c2]) simp
  have r3: "reachable openService (now (downEnv 0))"
    by (rule reachable.call [OF r2 _ c3]) simp
  then show ?thesis by (simp add: n)
qed

lemma sat_date: "utcDate 2025 8 2 14 0 30 = 1754143230000"
  unfolding utcDate_def daysFromCivil_def Let_def by simp

lemma fri_dates: "utcDate 2025 8 1 17 0 30 = 1754067630000" "utcDate 2025 8 1 17 0 0 = 1754067600000"
  unfolding utcDate_def daysFromCivil_def Let_def by simp_all

lemma sat_not_business: "\<not> isBusinessDay 0 1754143230000 []"
  unfolding isBusinessDay_def getDay_def localTime_def Let_def by simp

lemma fri_business: "isBusinessDay 0 (subDays 1754143230000 1) []"
  unfolding isBusinessDay_def isHoliday_def getDay_def localTime_def subDays_def addDays_def Let_def
  by simp

lemma calculateBusinessTime_start:
  "calculateBusinessTime tz c (Some s) n m H = calculateBusinessTime tz 0 (Some s) n m H"
  by (simp add: calculateBusinessTime_def)

lemma scenario_utc:
  "calculateBusinessTime 0 0 (Some (utcDate 2025 4 10 15 0 0)) (Some 5) (Some 4)
     [daysFromCivil 2025 4 17, daysFromCivil 2025 4 18] = utcDate 2025 4 21 20 0 0"
  by code_simp

lemma scenario_bogota:
  "calculateBusinessTime (- 300) 0 (Some (utcDate 2025 4 10 15 0 0)) (Some 5) (Some 4)
     [daysFromCivil 2025 4 17, daysFromCivil 2025 4 18] = utcDate 2025 4 21 20 0 0"
  by code_simp

lemma bogota_input_fields:
  "getDay (- 300) (utcDate 2025 1 7 1 0 0) = 1 \<and>
   getHours (- 300) (utcDate 2025 1 7 1 0 0) = 20 \<and>
   localTime (- 300) (utcDate 2025 1 7 1 0 0) div 86400000 = daysFromCivil 2025 1 6 \<and>
   toISODate (utcDate 2025 1 7 1 0 0) = daysFromCivil 2025 1 7 \<and>
   utcToColombiaTime (- 300) (utcDate 2025 1 7 1 0 0) = utcDate 2025 1 7 1 0 0"
  by code_simp

text \<open>
  The repository's tests fix the process time zone. Example 9 of businessTime.test.ts
  passes the start through \<open>colombiaTimeToUtc\<close> before the call and expects the 21st at
  15:00 local time: the model gives that for a process in America/Bogota (\<open>tz = -300\<close>),
  and the 22nd at 10:00 for a process in UTC.
\<close>

definition mockHolidays :: ColombianHolidays where
  "mockHolidays = [daysFromCivil 2025 4 17, daysFromCivil 2025 4 18, daysFromCivil 2025 12 25]"

definition testExample9 :: "int \<Rightarrow> int" where
  "testExample9 tz =
     (let utcDate' = colombiaTimeToUtc tz (utcDate 2025 4 10 15 0 0);
          result = calculateBusinessTime tz 0 (Some utcDate') (Some 5) (Some 4) mockHolidays;
          resultColombia = utcToColombiaTime tz result
      in localTime tz resultColombia)"

lemma testExample9_time_zone:
  "testExample9 (- 300) = utcDate 2025 4 21 15 0 0 \<and> testExample9 0 = utcDate 2025 4 22 10 0 0"
  by code_simp

text \<open>
  \<open>getFallbackHolidays\<close> reads the year of an entry in the process time zone: west of
  UTC, midnight UTC of January 1st is still in the year before.
\<close>

lemma holidayYear_time_zone:
  "holidayYear 0 (daysFromCivil 2025 1 1) = 2025 \<and>
   holidayYear (- 300) (daysFromCivil 2025 1 1) = 2024"
  by code_simp

section \<open>The claims\<close>

subsection \<open>C1: the circuit breaker\<close>

text \<open>
  Claim C1, with the boundary of the cooldown as the code has it. In every state reached
  from the initial one (CLOSED, 0 failures) by calls made one after the other at times
  that never decrease, the phase is OPEN exactly when the failure count is at least 3.
  A call that makes requests and whose fetch exhausts its retries increments the count
  and records its time as the time of the last failure, and the phase after it is OPEN
  exactly when the new count is at least 3. While the phase is OPEN, a call made at
  most 5 minutes (300000 ms) after the last failure returns the fallback result, makes
  no request and changes nothing. A call made more than 5 minutes after the last
  failure sets the phase to HALF_OPEN (\<open>isCircuitOpen\<close>) and performs one fetch (its
  log is the log of \<open>fetchWithRetry\<close>); after it the phase is CLOSED with count 0 when
  the fetch succeeded, and OPEN with the count incremented and the time of the last
  failure set to the time of the call when it failed.
\<close>

theorem circuit_breaker_machine:
  assumes "reachable s t" and "t \<le> now env"
  shows "(state (circuitBreaker s) = OPEN) = (3 \<le> failures (circuitBreaker s))
       \<and> (snd (snd (getColombianHolidays tz env s)) \<noteq> [] \<and>
            isl (fst (fetchWithRetry (responses env) (randoms env))) \<longrightarrow>
              failures (circuitBreaker (fst (snd (getColombianHolidays tz env s))))
                = failures (circuitBreaker s) + 1 \<and>
              lastFailureTime (circuitBreaker (fst (snd (getColombianHolidays tz env s))))
                = now env \<and>
              (state (circuitBreaker (fst (snd (getColombianHolidays tz env s)))) = OPEN)
                = (3 \<le> failures (circuitBreaker s) + 1))
       \<and> (state (circuitBreaker s) = OPEN \<and>
            now env - lastFailureTime (circuitBreaker s) \<le> 5 * 60 * 1000 \<longrightarrow>
              getColombianHolidays tz env s = (Inr (getFallbackResult tz (clock env)), s, []))
       \<and> (state (circuitBreaker s) = OPEN \<and>
            now env - lastFailureTime (circuitBreaker s) > 5 * 60 * 1000 \<longrightarrow>
              isCircuitOpen (now env) (circuitBreaker s)
                = (False, (circuitBreaker s)\<lparr>state := HALF_OPEN\<rparr>) \<and>
              snd (snd (getColombianHolidays tz env s))
                = snd (fetchWithRetry (responses env) (randoms env)) \<and>
              (case fst (fetchWithRetry (responses env) (randoms env)) of
                 Inr hs \<Rightarrow>
                   state (circuitBreaker (fst (snd (getColombianHolidays tz env s)))) = CLOSED \<and>
                   failures (circuitBreaker (fst (snd (getColombianHolidays tz env s)))) = 0
               | Inl e \<Rightarrow>
                   state (circuitBreaker (fst (snd (getColombianHolidays tz env s)))) = OPEN \<and>
                   failures (circuitBreaker (fst (snd (getColombianHolidays tz env s))))
                     = failures (circuitBreaker s) + 1 \<and>
                   lastFailureTime (circuitBreaker (fst (snd (getColombianHolidays tz env s))))
                     = now env))"
proof -
  have inv: "breakerInvariant s t" using assms(1) by (rule reachable_invariant)
  obtain res lg where f: "fetchWithRetry (responses env) (randoms env) = (res, lg)"
    by (cases "fetchWithRetry (responses env) (randoms env)")
  have lg: "lg \<noteq> []" using fetch_log_nonempty [of "responses env" "randoms env"] f by simp
  have p1: "(state (circuitBreaker s) = OPEN) = (3 \<le> failures (circuitBreaker s))"
    using inv by (simp add: breakerInvariant_def)
  have stale: "\<not> (cache s \<noteq> None \<and> now env - lastFetch s < CACHE_DURATION)"
    if "state (circuitBreaker s) = OPEN"
    using inv that assms(2) by (auto simp: breakerInvariant_def split: if_splits)
  have p2: "failures (circuitBreaker (fst (snd (getColombianHolidays tz env s))))
                = failures (circuitBreaker s) + 1 \<and>
              lastFailureTime (circuitBreaker (fst (snd (getColombianHolidays tz env s))))
                = now env \<and>
              (state (circuitBreaker (fst (snd (getColombianHolidays tz env s)))) = OPEN)
                = (3 \<le> failures (circuitBreaker s) + 1)"
    if a: "snd (snd (getColombianHolidays tz env s)) \<noteq> []" and b: "isl res"
  proof -
    obtain e where e: "res = Inl e" using b by (cases res) simp_all
    have m: "\<not> (cache s \<noteq> None \<and> now env - lastFetch s < CACHE_DURATION)"
      using a by (auto simp: getColombianHolidays_cases)
    then have g: "getColombianHolidays tz env s = fetchFresh tz env s"
      unfolding getColombianHolidays_cases by (simp only: if_False)
    have o: "\<not> (state (circuitBreaker s) = OPEN \<and>
        \<not> now env - lastFailureTime (circuitBreaker s) > CIRCUIT_TIMEOUT)"
      using a unfolding g fetchFresh_cases by (auto split: if_splits)
    show ?thesis
      using inv o unfolding g fetchFresh_cases
      by (auto simp: f e Let_def recordFailure_fields breakerInvariant_def)
  qed
  have p3: "getColombianHolidays tz env s = (Inr (getFallbackResult tz (clock env)), s, [])"
    if a: "state (circuitBreaker s) = OPEN"
      and b: "now env - lastFailureTime (circuitBreaker s) \<le> 5 * 60 * 1000"
  proof -
    have g: "getColombianHolidays tz env s = fetchFresh tz env s"
      using stale [OF a] unfolding getColombianHolidays_cases by (simp only: if_False)
    show ?thesis unfolding g fetchFresh_cases using a b by (simp add: CIRCUIT_TIMEOUT_def)
  qed
  have p4: "isCircuitOpen (now env) (circuitBreaker s)
                = (False, (circuitBreaker s)\<lparr>state := HALF_OPEN\<rparr>) \<and>
              snd (snd (getColombianHolidays tz env s)) = lg \<and>
              (case res of
                 Inr hs \<Rightarrow>
                   state (circuitBreaker (fst (snd (getColombianHolidays tz env s)))) = CLOSED \<and>
                   failures (circuitBreaker (fst (snd (getColombianHolidays tz env s)))) = 0
               | Inl e \<Rightarrow>
                   state (circuitBreaker (fst (snd (getColombianHolidays tz env s)))) = OPEN \<and>
                   failures (circuitBreaker (fst (snd (getColombianHolidays tz env s))))
                     = failures (circuitBreaker s) + 1 \<and>
                   lastFailureTime (circuitBreaker (fst (snd (getColombianHolidays tz env s))))
                     = now env)"
    if a: "state (circuitBreaker s) = OPEN"
      and b: "now env - lastFailureTime (circuitBreaker s) > 5 * 60 * 1000"
  proof -
    have g: "getColombianHolidays tz env s = fetchFresh tz env s"
      using stale [OF a] unfolding getColombianHolidays_cases by (simp only: if_False)
    have three: "3 \<le> failures (circuitBreaker s)" using p1 a by simp
    show ?thesis
      unfolding g fetchFresh_cases using a b three
      by (cases res)
        (simp_all add: CIRCUIT_TIMEOUT_def isCircuitOpen_def f Let_def recordFailure_fields)
  qed
  show ?thesis
    using p1 p2 p3 p4 unfolding f by simp
qed

text \<open>
  Claim C1 as it is stated fails at the boundary: \<open>isCircuitOpen\<close> tests
  \<open>now - lastFailureTime > CIRCUIT_TIMEOUT\<close>. In the state after three failed calls at
  time 0, a call made exactly 5 minutes later, while the holiday source answers, still
  returns the fallback result without a request, and the phase stays OPEN.
\<close>

theorem half_open_boundary_counterexample:
  "reachable openService 0 \<and>
   state (circuitBreaker openService) = OPEN \<and>
   now (upEnv 300000) - lastFailureTime (circuitBreaker openService) = 5 * 60 * 1000 \<and>
   getColombianHolidays 0 (upEnv 300000) openService =
     (Inr (getFallbackResult 0 300000), openService, [])"
proof -
  have "getColombianHolidays 0 (upEnv 300000) openService =
     (Inr (getFallbackResult 0 300000), openService, [])"
    unfolding getColombianHolidays_cases fetchFresh_cases
    by (simp add: openService_def upEnv_def CIRCUIT_TIMEOUT_def)
  then show ?thesis
    using reachable_openService by (simp add: openService_def upEnv_def)
qed

text \<open>One millisecond later the call goes through HALF_OPEN, fetches and closes the circuit.\<close>

theorem circuit_breaker_machine_witness:
  "isCircuitOpen 300001 (circuitBreaker openService)
     = (False, (circuitBreaker openService)\<lparr>state := HALF_OPEN\<rparr>) \<and>
   snd (snd (getColombianHolidays 0 (upEnv 300001) openService)) = [Get] \<and>
   state (circuitBreaker (fst (snd (getColombianHolidays 0 (upEnv 300001) openService)))) = CLOSED \<and>
   failures (circuitBreaker (fst (snd (getColombianHolidays 0 (upEnv 300001) openService)))) = 0"
proof -
  have f: "fetchWithRetry (responses (upEnv 300001)) (randoms (upEnv 300001)) =
      (Inr [daysFromCivil 2025 12 25], attemptsLog (randoms (upEnv 300001)) 1)"
    by (rule fetch_succeeds_at(1)) (simp add: upEnv_def attemptOutcome_def)
  have l: "attemptsLog (randoms (upEnv 300001)) 1 = [Get]"
    by (simp add: attemptsLog_def attemptEvents_def)
  have t: "(0::int) \<le> now (upEnv 300001)" by (simp add: upEnv_def)
  show ?thesis
    using circuit_breaker_machine [OF reachable_openService t, of 0]
    unfolding f l by (simp add: openService_def upEnv_def)
qed

subsection \<open>C2: a fresh cache entry is served\<close>

text \<open>
  Claim C2. When a cache entry exists and \<open>now\<close> minus the instant of its fetch is less
  than 24 hours, the call returns the cached list with status HEALTHY, source CACHE and
  that instant as \<open>lastUpdated\<close>, makes no request (its log is empty) and leaves the
  cache and the circuit breaker as they were.
\<close>

theorem fresh_cache_is_served:
  assumes "cache s = Some c" and "now env - lastFetch s < 24 * 60 * 60 * 1000"
  shows "getColombianHolidays tz env s =
           (Inr \<lparr>holidays = c, status = HEALTHY, source = CACHE,
                  lastUpdated = Some (lastFetch s)\<rparr>, s, [])"
  using assms by (simp add: getColombianHolidays_def CACHE_DURATION_def)

theorem fresh_cache_is_served_witness:
  "getColombianHolidays 0 (downEnv 86400999) cachedService =
     (Inr \<lparr>holidays = [daysFromCivil 2025 12 25], status = HEALTHY, source = CACHE,
            lastUpdated = Some 1000\<rparr>, cachedService, [])"
  using fresh_cache_is_served [of cachedService "[daysFromCivil 2025 12 25]" "downEnv 86400999" 0]
  by (simp add: cachedService_def downEnv_def)

subsection \<open>C3: exhausted retries degrade to cached or static data\<close>

text \<open>
  When a call makes requests and all four attempts fail, the failure count is
  incremented and the time of the last failure set to \<open>now\<close> (the phase is OPEN
  when the count has reached 3), the cache is left as it was, and the call returns, and
  does not raise: with a cache entry (stale as it may be) the cached list with status
  DEGRADED, source CACHE and the instant of its fetch; without one the result of
  \<open>getFallbackHolidays (currentYear, currentYear + 1)\<close> with status FAILED, source
  FALLBACK and no \<open>lastUpdated\<close>.
\<close>

lemma exhausted_retries_effects:
  assumes attempted: "snd (snd (getColombianHolidays tz env s)) \<noteq> []"
    and exhausted: "\<forall>k<4. failed (responses env k)"
  shows "failures (circuitBreaker (fst (snd (getColombianHolidays tz env s))))
           = failures (circuitBreaker s) + 1
       \<and> lastFailureTime (circuitBreaker (fst (snd (getColombianHolidays tz env s)))) = now env
       \<and> (3 \<le> failures (circuitBreaker s) + 1 \<longrightarrow>
            state (circuitBreaker (fst (snd (getColombianHolidays tz env s)))) = OPEN)
       \<and> cache (fst (snd (getColombianHolidays tz env s))) = cache s
       \<and> lastFetch (fst (snd (getColombianHolidays tz env s))) = lastFetch s
       \<and> fst (getColombianHolidays tz env s) =
           (case cache s of
              Some c \<Rightarrow> Inr \<lparr>holidays = c, status = DEGRADED, source = CACHE,
                            lastUpdated = Some (lastFetch s)\<rparr>
            | None \<Rightarrow> Inr \<lparr>holidays =
                              getFallbackHolidays tz (Some (getFullYear tz (clock env)))
                                (Some (getFullYear tz (clock env) + 1)),
                            status = FAILED, source = FALLBACK, lastUpdated = None\<rparr>)"
proof -
  obtain e where f: "fetchWithRetry (responses env) (randoms env)
      = (Inl (Some e), attemptsLog (randoms env) 4)"
    using fetch_all_failed [OF exhausted] by blast
  have miss: "getColombianHolidays tz env s = fetchFresh tz env s"
    using attempted by (auto simp: getColombianHolidays_def split: option.splits if_splits)
  have notOpen: "fst (isCircuitOpen (now env) (circuitBreaker s)) = False"
    using attempted unfolding miss
    by (auto simp: fetchFresh_def Let_def split: prod.splits if_splits)
  obtain cb1 where cb1: "isCircuitOpen (now env) (circuitBreaker s) = (False, cb1)"
    using notOpen by (cases "isCircuitOpen (now env) (circuitBreaker s)") simp
  have cbf: "failures cb1 = failures (circuitBreaker s)"
    using cb1 by (auto simp: isCircuitOpen_def split: if_splits)
  have main: "failures (circuitBreaker (fst (snd (fetchFresh tz env s))))
           = failures (circuitBreaker s) + 1
       \<and> lastFailureTime (circuitBreaker (fst (snd (fetchFresh tz env s)))) = now env
       \<and> (3 \<le> failures (circuitBreaker s) + 1 \<longrightarrow>
            state (circuitBreaker (fst (snd (fetchFresh tz env s)))) = OPEN)
       \<and> cache (fst (snd (fetchFresh tz env s))) = cache s
       \<and> lastFetch (fst (snd (fetchFresh tz env s))) = lastFetch s
       \<and> fst (fetchFresh tz env s) =
           (case cache s of
              Some c \<Rightarrow> Inr \<lparr>holidays = c, status = DEGRADED, source = CACHE,
                            lastUpdated = Some (lastFetch s)\<rparr>
            | None \<Rightarrow> Inr \<lparr>holidays =
                              getFallbackHolidays tz (Some (getFullYear tz (clock env)))
                                (Some (getFullYear tz (clock env) + 1)),
                            status = FAILED, source = FALLBACK, lastUpdated = None\<rparr>)"
    by (simp add: fetchFresh_def cb1 f Let_def recordFailure_def MAX_FAILURES_def cbf
        getFallbackResult_def split: option.splits)
  show ?thesis
    unfolding miss by (rule main)
qed


text \<open>
  In a process that runs in UTC the year \<open>getFallbackHolidays\<close> reads in an entry is
  the year written in it, and the fallback result is the static list filtered to the
  years from \<open>currentYear\<close> to \<open>currentYear + 1\<close>.
\<close>

lemma holidayYear_utc: "holidayYear 0 h = yearOfDay h"
  by (simp add: holidayYear_def getFullYear_def localTime_def)

lemma getFallbackHolidays_utc:
  assumes "0 < y"
  shows "getFallbackHolidays 0 (Some y) (Some (y + 1)) =
           filter (\<lambda>h. y \<le> yearOfDay h \<and> yearOfDay h \<le> y + 1) FALLBACK_COLOMBIAN_HOLIDAYS"
  using assms by (simp add: getFallbackHolidays_range holidayYear_utc)

text \<open>
  In a process that runs in America/Bogota, \<open>new Date(holiday).getFullYear()\<close> gives
  the year before for the two entries of January 1st.
\<close>

lemma fallback_years_bogota:
  "holidayYear (- 300) (daysFromCivil 2024 1 1) = 2023"
  "holidayYear (- 300) (daysFromCivil 2024 1 8) = 2024"
  "holidayYear (- 300) (daysFromCivil 2024 3 25) = 2024"
  "holidayYear (- 300) (daysFromCivil 2024 3 28) = 2024"
  "holidayYear (- 300) (daysFromCivil 2024 3 29) = 2024"
  "holidayYear (- 300) (daysFromCivil 2024 5 1) = 2024"
  "holidayYear (- 300) (daysFromCivil 2024 5 13) = 2024"
  "holidayYear (- 300) (daysFromCivil 2024 6 3) = 2024"
  "holidayYear (- 300) (daysFromCivil 2024 6 10) = 2024"
  "holidayYear (- 300) (daysFromCivil 2024 7 1) = 2024"
  "holidayYear (- 300) (daysFromCivil 2024 7 20) = 2024"
  "holidayYear (- 300) (daysFromCivil 2024 8 7) = 2024"
  "holidayYear (- 300) (daysFromCivil 2024 8 19) = 2024"
  "holidayYear (- 300) (daysFromCivil 2024 10 14) = 2024"
  "holidayYear (- 300) (daysFromCivil 2024 11 4) = 2024"
  "holidayYear (- 300) (daysFromCivil 2024 11 11) = 2024"
  "holidayYear (- 300) (daysFromCivil 2024 12 8) = 2024"
  "holidayYear (- 300) (daysFromCivil 2024 12 25) = 2024"
  "holidayYear (- 300) (daysFromCivil 2025 1 1) = 2024"
  "holidayYear (- 300) (daysFromCivil 2025 1 6) = 2025"
  "holidayYear (- 300) (daysFromCivil 2025 3 24) = 2025"
  "holidayYear (- 300) (daysFromCivil 2025 4 17) = 2025"
  "holidayYear (- 300) (daysFromCivil 2025 4 18) = 2025"
  "holidayYear (- 300) (daysFromCivil 2025 5 1) = 2025"
  "holidayYear (- 300) (daysFromCivil 2025 6 2) = 2025"
  "holidayYear (- 300) (daysFromCivil 2025 6 23) = 2025"
  "holidayYear (- 300) (daysFromCivil 2025 6 30) = 2025"
  "holidayYear (- 300) (daysFromCivil 2025 7 20) = 2025"
  "holidayYear (- 300) (daysFromCivil 2025 8 7) = 2025"
  "holidayYear (- 300) (daysFromCivil 2025 8 18) = 2025"
  "holidayYear (- 300) (daysFromCivil 2025 10 13) = 2025"
  "holidayYear (- 300) (daysFromCivil 2025 11 3) = 2025"
  "holidayYear (- 300) (daysFromCivil 2025 11 17) = 2025"
  "holidayYear (- 300) (daysFromCivil 2025 12 8) = 2025"
  "holidayYear (- 300) (daysFromCivil 2025 12 25) = 2025"
  by code_simp+

lemma fallback_bogota_2025:
  "getFallbackHolidays (- 300) (Some 2025) (Some 2026) =
     [daysFromCivil 2025 1 6, daysFromCivil 2025 3 24,
      daysFromCivil 2025 4 17, daysFromCivil 2025 4 18, daysFromCivil 2025 5 1,
      daysFromCivil 2025 6 2, daysFromCivil 2025 6 23, daysFromCivil 2025 6 30,
      daysFromCivil 2025 6 30, daysFromCivil 2025 7 20, daysFromCivil 2025 8 7,
      daysFromCivil 2025 8 18, daysFromCivil 2025 10 13, daysFromCivil 2025 11 3,
      daysFromCivil 2025 11 17, daysFromCivil 2025 12 8, daysFromCivil 2025 12 25]"
  unfolding getFallbackHolidays_def FALLBACK_COLOMBIAN_HOLIDAYS_def
  by (simp add: falsy_def Let_def fallback_years_bogota)

lemma june_clock: "getFullYear (- 300) (utcDate 2025 6 2 15 0 0) = 2025"
  by code_simp

lemma new_year_entry: "daysFromCivil 2025 1 1 \<in> set FALLBACK_COLOMBIAN_HOLIDAYS"
  unfolding FALLBACK_COLOMBIAN_HOLIDAYS_def by simp

lemma new_year_year: "yearOfDay (daysFromCivil 2025 1 1) = 2025"
  by code_simp

text \<open>
  Claim C3 says that a call whose fetch exhausts its retries, with no cache entry,
  returns the static fallback list filtered to the inclusive year range
  \<open>[currentYear, currentYear + 1]\<close>. The code does so in a process that runs in UTC
  (\<open>getFallbackHolidays_utc\<close>; \<open>exhausted_retries_effects\<close> is the rest of the claim),
  and not in one that runs in America/Bogota: \<open>new Date('2025-01-01')\<close> is midnight
  UTC, which is 19:00 of 2024-12-31 there, and \<open>getFullYear\<close> gives 2024. A call on
  2025-06-02 (the current year is 2025) with no cache entry, while every request times
  out, returns the 17 entries from 2025-01-06 to 2025-12-25: 2025-01-01, an entry of
  the static list whose year lies in \<open>[2025, 2026]\<close>, is missing.
\<close>

theorem fallback_drops_new_year_in_bogota:
  "getFullYear (- 300) (clock (downEnv (utcDate 2025 6 2 15 0 0))) = 2025 \<and>
   fst (getColombianHolidays (- 300) (downEnv (utcDate 2025 6 2 15 0 0)) initialService) =
     Inr \<lparr>holidays =
            [daysFromCivil 2025 1 6, daysFromCivil 2025 3 24,
             daysFromCivil 2025 4 17, daysFromCivil 2025 4 18, daysFromCivil 2025 5 1,
             daysFromCivil 2025 6 2, daysFromCivil 2025 6 23, daysFromCivil 2025 6 30,
             daysFromCivil 2025 6 30, daysFromCivil 2025 7 20, daysFromCivil 2025 8 7,
             daysFromCivil 2025 8 18, daysFromCivil 2025 10 13, daysFromCivil 2025 11 3,
             daysFromCivil 2025 11 17, daysFromCivil 2025 12 8, daysFromCivil 2025 12 25],
          status = FAILED, source = FALLBACK, lastUpdated = None\<rparr> \<and>
   daysFromCivil 2025 1 1 \<in> set FALLBACK_COLOMBIAN_HOLIDAYS \<and>
   yearOfDay (daysFromCivil 2025 1 1) = 2025"
proof -
  have c: "clock (downEnv (utcDate 2025 6 2 15 0 0)) = utcDate 2025 6 2 15 0 0"
    by (simp add: downEnv_def)
  have r: "fst (getColombianHolidays (- 300) (downEnv (utcDate 2025 6 2 15 0 0)) initialService)
      = Inr (getFallbackResult (- 300) (utcDate 2025 6 2 15 0 0))"
    by (subst down_call) (simp_all add: initialService_def)
  show ?thesis
    unfolding r c getFallbackResult_def Let_def june_clock
    using fallback_bogota_2025 new_year_entry new_year_year by simp
qed

subsection \<open>C4: fetchWithRetry\<close>



subsection \<open>C5: the adjustment is not idempotent in every process time zone\<close>

text \<open>
  Claim C5 (idempotence of \<open>adjustToPrevBusinessTime\<close>) holds for a process that runs in
  UTC (\<open>adjust_idempotent_utc\<close>) and fails for one that runs in America/Bogota, the time
  zone the repository's tests need (\<open>testExample9_time_zone\<close>): \<open>isBusinessDay\<close> takes the
  day of the week from the local fields and the holiday date from
  \<open>toISOString\<close>, which is the UTC date. With 2025-01-06 in the holiday list, Monday
  2025-01-06 20:00 local time (2025-01-07T01:00Z) counts as a business day and is moved
  to 17:00 of the same day; at 17:00 (22:00Z) the same day counts as a holiday, and the
  second adjustment moves on to Friday 2025-01-03 17:00.
\<close>

theorem adjust_not_idempotent_in_bogota:
  "date (adjustToPrevBusinessTime (- 300) (utcDate 2025 1 7 1 0 0) [daysFromCivil 2025 1 6])
     = utcDate 2025 1 6 22 0 0 \<and>
   date (adjustToPrevBusinessTime (- 300) (utcDate 2025 1 6 22 0 0) [daysFromCivil 2025 1 6])
     = utcDate 2025 1 3 22 0 0 \<and>
   utcDate 2025 1 3 22 0 0 \<noteq> utcDate 2025 1 6 22 0 0"
  by code_simp

subsection \<open>C6: within working hours nothing is adjusted\<close>

text \<open>
  Claim C6. For every date on a Monday to Friday (\<open>getDay\<close> from 1 to 5) whose
  calendar date is not in the holiday list (\<open>isHoliday\<close>) and whose minute of the day
  lies in \<open>[8 * 60, 12 * 60)\<close> or \<open>[13 * 60, 17 * 60)\<close>, \<open>adjustToPrevBusinessTime\<close>
  returns the date unchanged, with \<open>wasAdjusted = false\<close>. (Within working hours the
  date \<open>isHoliday\<close> reads is the date of the local fields in a process time zone from
  UTC-7 to UTC+8: \<open>working_hours_same_date\<close>.)
\<close>

theorem within_hours_unchanged:
  assumes "getDay tz x \<in> {1, 2, 3, 4, 5}"
    and "\<not> isHoliday x H"
    and "(8 * 60 \<le> getHours tz x * 60 + getMinutes tz x \<and>
          getHours tz x * 60 + getMinutes tz x < 12 * 60) \<or>
         (13 * 60 \<le> getHours tz x * 60 + getMinutes tz x \<and>
          getHours tz x * 60 + getMinutes tz x < 17 * 60)"
  shows "date (adjustToPrevBusinessTime tz x H) = x \<and>
         wasAdjusted (adjustToPrevBusinessTime tz x H) = False"
proof -
  have b: "isBusinessDay tz x H"
    using assms(1,2) by (auto simp: isBusinessDay_def Let_def)
  have w: "isWithinWorkingHours tz x"
    using assms(3) by (simp add: isWithinWorkingHours_def WORKING_HOURS_def Let_def)
  show ?thesis by (simp add: adjust_within [OF b w])
qed

theorem within_hours_unchanged_witness:
  "date (adjustToPrevBusinessTime (- 300) (utcDate 2025 8 4 14 30 15) [daysFromCivil 2025 8 7])
     = utcDate 2025 8 4 14 30 15 \<and>
   wasAdjusted (adjustToPrevBusinessTime (- 300) (utcDate 2025 8 4 14 30 15)
     [daysFromCivil 2025 8 7]) = False"
  using within_hours_unchanged [of "- 300" "utcDate 2025 8 4 14 30 15" "[daysFromCivil 2025 8 7]"]
  by (simp add: getDay_def getHours_def getMinutes_def localTime_def utcDate_def
      daysFromCivil_def isHoliday_def toISODate_def)

subsection \<open>C7: a day that is not a business day\<close>

text \<open>
  What the first loop of \<open>adjustToPrevBusinessTime\<close> does, with the days as
  \<open>isBusinessDay\<close> decides them: a date that is not on a business day is moved back
  \<open>n > 0\<close> days, to the first day reached that is one, with the hour set to 17 and the
  minute to 0, and \<open>wasAdjusted = true\<close>. In a process that runs in UTC, where the
  date \<open>isHoliday\<close> reads is the date of the local fields, that is the previous business
  day of the calendar.
\<close>

lemma not_businessDay_moves_back:
  assumes "\<not> isBusinessDay tz x H"
  shows "\<exists>n>0. (\<forall>k. 0 \<le> k \<and> k < n \<longrightarrow> \<not> isBusinessDay tz (subDays x k) H) \<and>
           isBusinessDay tz (subDays x n) H \<and>
           date (adjustToPrevBusinessTime tz x H)
             = setHours tz (setMinutes tz (subDays x n) 0) (end' WORKING_HOURS) \<and>
           localTime tz (date (adjustToPrevBusinessTime tz x H)) div 86400000
             = localTime tz x div 86400000 - n \<and>
           getHours tz (date (adjustToPrevBusinessTime tz x H)) = 17 \<and>
           getMinutes tz (date (adjustToPrevBusinessTime tz x H)) = 0 \<and>
           localTime tz (date (adjustToPrevBusinessTime tz x H)) mod 60000
             = localTime tz x mod 60000 \<and>
           wasAdjusted (adjustToPrevBusinessTime tz x H) = True"
proof -
  obtain n where n: "0 \<le> n" "prevBusinessDay tz x H = subDays x n"
    "isBusinessDay tz (subDays x n) H"
    "\<forall>k. 0 \<le> k \<and> k < n \<longrightarrow> \<not> isBusinessDay tz (subDays x k) H"
    using prevBusinessDay_least [of tz x H] by blast
  have "n \<noteq> 0"
  proof
    assume "n = 0"
    then have "subDays x n = x" by (simp add: subDays_def addDays_def)
    with n(3) assms show False by simp
  qed
  with n(1) have pos: "0 < n" by simp
  have d: "date (adjustToPrevBusinessTime tz x H) = setHours tz (setMinutes tz (subDays x n) 0) 17"
    and w: "wasAdjusted (adjustToPrevBusinessTime tz x H) = True"
    by (simp_all add: adjust_not_businessDay [OF assms] n(2))
  have h: "(0::int) \<le> 17" "(17::int) < 24" by simp_all
  show ?thesis
    using pos n(3,4) w unfolding d
    by (intro exI [of _ n])
      (simp add: setHours_setMinutes_fields [OF h] localDay_subDays_n localMs_subDays
        WORKING_HOURS_def)
qed

text \<open>
  \<open>setMinutes\<close> and \<open>setHours\<close> leave the seconds and milliseconds of the date:
  Saturday 2025-08-02 14:00:30 is moved to Friday 2025-08-01 17:00:30.
\<close>

lemma seconds_are_kept:
  "\<not> isBusinessDay 0 (utcDate 2025 8 2 14 0 30) [] \<and>
   date (adjustToPrevBusinessTime 0 (utcDate 2025 8 2 14 0 30) []) = utcDate 2025 8 1 17 0 30 \<and>
   utcDate 2025 8 1 17 0 30 \<noteq> utcDate 2025 8 1 17 0 0"
proof -
  have p: "prevBusinessDay 0 1754143230000 [] = subDays 1754143230000 1"
    using sat_not_business fri_business
    by (subst prevBusinessDay.simps) (simp add: prevBusinessDay_businessDay)
  have "date (adjustToPrevBusinessTime 0 1754143230000 []) = 1754067630000"
    unfolding adjust_not_businessDay [OF sat_not_business] p
    by (simp add: setHours_def setMinutes_def getHours_def getMinutes_def localTime_def
        subDays_def addDays_def)
  then show ?thesis
    unfolding sat_date fri_dates using sat_not_business by simp
qed

lemma easter_saturday_in_utc:
  "date (adjustToPrevBusinessTime 0 (utcDate 2025 4 19 20 0 0)
       [daysFromCivil 2025 4 17, daysFromCivil 2025 4 18]) = utcDate 2025 4 16 17 0 0"
  by code_simp

text \<open>
  Claim C7 says that a date on a weekend or a holiday is moved to 17:00 of the previous
  business day. In a process that runs in America/Bogota the code can stop on a
  holiday, by the defect of C5: \<open>isBusinessDay\<close> takes the day of the week from the
  local fields and the holiday date from \<open>toISOString\<close>, the UTC date. With the
  holidays 2025-04-17 and 2025-04-18, Saturday 2025-04-19 20:00 local time
  (2025-04-20T01:00Z) is moved to Friday 2025-04-18 17:00 local time
  (2025-04-18T22:00Z), a holiday: at 20:00 of that Friday the UTC date is the 19th. The
  previous business day is Wednesday 2025-04-16 (\<open>easter_saturday_in_utc\<close> is the same
  input in a process that runs in UTC). And with the holiday 2025-01-06, Monday
  2025-01-06 20:00 local time (2025-01-07T01:00Z) is taken for a business day after
  hours and set to 17:00 of the same day. (\<open>localTime\<close> is the instant whose UTC fields
  are the local fields of its argument.)
\<close>

theorem holiday_reached_in_bogota:
  "getDay (- 300) (utcDate 2025 4 20 1 0 0) = 6 \<and>
   localTime (- 300) (utcDate 2025 4 20 1 0 0) = utcDate 2025 4 19 20 0 0 \<and>
   adjustToPrevBusinessTime (- 300) (utcDate 2025 4 20 1 0 0)
       [daysFromCivil 2025 4 17, daysFromCivil 2025 4 18]
     = \<lparr>date = utcDate 2025 4 18 22 0 0, wasAdjusted = True,
        reason = ''Moved to next business day (weekend/holiday)''\<rparr> \<and>
   localTime (- 300) (utcDate 2025 4 18 22 0 0) = utcDate 2025 4 18 17 0 0 \<and>
   utcDate 2025 4 18 22 0 0 \<noteq> utcDate 2025 4 16 22 0 0 \<and>
   localTime (- 300) (utcDate 2025 1 7 1 0 0) = utcDate 2025 1 6 20 0 0 \<and>
   adjustToPrevBusinessTime (- 300) (utcDate 2025 1 7 1 0 0) [daysFromCivil 2025 1 6]
     = \<lparr>date = utcDate 2025 1 6 22 0 0, wasAdjusted = True,
        reason = ''Adjusted to end of business day (after hours)''\<rparr> \<and>
   localTime (- 300) (utcDate 2025 1 6 22 0 0) = utcDate 2025 1 6 17 0 0"
  by code_simp

subsection \<open>C8: the scenario with the Easter holidays of 2025\<close>

text \<open>
  Claim C8. With the holidays 2025-04-17 and 2025-04-18, \<open>calculateBusinessTime\<close> of
  the start 2025-04-10T15:00:00Z (Thursday 10:00 in Colombia), 5 days and 4 hours is
  2025-04-21T20:00:00Z (15:00 in Colombia), in a process that runs in UTC and in one
  that runs in America/Bogota.
\<close>

theorem holiday_scenario:
  "calculateBusinessTime 0 c (Some (utcDate 2025 4 10 15 0 0)) (Some 5) (Some 4)
     [daysFromCivil 2025 4 17, daysFromCivil 2025 4 18] = utcDate 2025 4 21 20 0 0 \<and>
   calculateBusinessTime (- 300) c (Some (utcDate 2025 4 10 15 0 0)) (Some 5) (Some 4)
     [daysFromCivil 2025 4 17, daysFromCivil 2025 4 18] = utcDate 2025 4 21 20 0 0"
  using scenario_utc scenario_bogota
  by (simp only: calculateBusinessTime_start [of _ c])

subsection \<open>C9: adding nothing\<close>

text \<open>
  Claim C9. \<open>addBusinessDays (x, 0, H) = x\<close> and \<open>addBusinessHours (x, 0, H) = x\<close> for
  every date and holiday list: with a count of zero neither function adjusts.
\<close>

theorem zero_identity:
  "addBusinessDays tz x 0 H = x \<and> addBusinessHours tz x 0 H = x"
  by (simp add: addBusinessDays_def addBusinessHours_def)

subsection \<open>C10: the start of the lunch break\<close>

text \<open>
  Claim C10. For every date on a business day whose minute of the day is exactly
  \<open>lunchStart * 60\<close> (12:00), \<open>adjustToPrevBusinessTime\<close> returns the input date and
  reports \<open>wasAdjusted = true\<close> all the same.
\<close>

theorem lunch_start_reported_adjusted:
  assumes "isBusinessDay tz x H"
    and "getHours tz x * 60 + getMinutes tz x = lunchStart WORKING_HOURS * 60"
  shows "date (adjustToPrevBusinessTime tz x H) = x \<and>
         wasAdjusted (adjustToPrevBusinessTime tz x H) = True"
proof -
  have t: "getHours tz x * 60 + getMinutes tz x = 12 * 60"
    using assms(2) by (simp add: WORKING_HOURS_def)
  have "getHours tz x = 12 \<and> getMinutes tz x = 0"
    using hour_minute_unique [OF t] getMinutes_range [of tz x] by simp
  then have "setHours tz (setMinutes tz x 0) 12 = x"
    by (simp add: setHours_setMinutes_fixed)
  then show ?thesis
    using t by (simp add: adjust_businessDay [OF assms(1)] Let_def)
qed

theorem lunch_start_reported_adjusted_witness:
  "date (adjustToPrevBusinessTime 0 (utcDate 2025 8 4 12 0 0) []) = utcDate 2025 8 4 12 0 0 \<and>
   wasAdjusted (adjustToPrevBusinessTime 0 (utcDate 2025 8 4 12 0 0) []) = True"
  using lunch_start_reported_adjusted [of 0 "utcDate 2025 8 4 12 0 0" "[]"]
  by (simp add: isBusinessDay_def isHoliday_def getDay_def getHours_def getMinutes_def
      localTime_def utcDate_def daysFromCivil_def WORKING_HOURS_def)

end
